theory Spec2Isabelle
  imports Complex_Main
begin

section \<open>Python values and failures\<close>

text \<open>
  The script \<^verbatim>\<open>tutorials/Skills/agilerl_skills_curriculum.py\<close> works on LunarLander
  observations (arrays of floats), float rewards and the flags \<^verbatim>\<open>terminated\<close> and
  \<^verbatim>\<open>truncated\<close>. Floats are modelled as \<^typ>\<open>real\<close>: the arithmetic of the reward
  formulas is exact here, rounding is not part of the model. An indexing or lookup that
  Python answers with an exception is a value of \<open>error\<close>.
\<close>

datatype error = IndexError | KeyError | NameError

type_synonym observation = "real list"

text \<open>
  The flags arrive as booleans from the base environment, and the wrappers write the
  integer \<^verbatim>\<open>0\<close> or the boolean \<^verbatim>\<open>True\<close> into them; \<open>truthy\<close> is what Python's
  \<^verbatim>\<open>if\<close> and \<^verbatim>\<open>or\<close> read from such a value.
\<close>

datatype flag = PyBool bool | PyInt int

fun truthy :: "flag \<Rightarrow> bool" where
  "truthy (PyBool b) = b"
| "truthy (PyInt i) = (i \<noteq> 0)"

definition ebind :: "error + 'a \<Rightarrow> ('a \<Rightarrow> error + 'b) \<Rightarrow> error + 'b" where
  "ebind m f = (case m of Inl e \<Rightarrow> Inl e | Inr v \<Rightarrow> f v)"

text \<open>\<^verbatim>\<open>xs[i]\<close> for a literal index \<open>i \<ge> 0\<close>, and \<^verbatim>\<open>xs[-1]\<close>.\<close>

definition getitem :: "'a list \<Rightarrow> nat \<Rightarrow> error + 'a" where
  "getitem xs i = (if i < length xs then Inr (xs ! i) else Inl IndexError)"

definition last_item :: "'a list \<Rightarrow> error + 'a" where
  "last_item xs = (if xs = [] then Inl IndexError else Inr (last xs))"

section \<open>The reward-shaping wrappers\<close>

text \<open>
  Each wrapper class extends \<^verbatim>\<open>Skill\<close>, which holds the wrapped base environment in
  \<^verbatim>\<open>self.env\<close>. The base environment is an opaque state \<open>'e\<close>; the only method a
  wrapper calls on it is \<^verbatim>\<open>reset()\<close>, passed to the model as the function \<open>reset\<close>
  (the effect of the call on the environment; the wrappers discard what it returns).
  The \<^verbatim>\<open>history\<close> dictionaries have fixed literal keys and are records of lists.
  \<^verbatim>\<open>skill_reward\<close> returns the five-tuple of a step together with the object after
  the call; when it raises, the object is as before the call (every mutation of
  \<^verbatim>\<open>self\<close> comes after the last expression that can raise).
\<close>

record 'e Skill =
  env :: 'e

record stabilize_history =
  hist_x :: "real list"
  hist_y :: "real list"
  hist_theta :: "real list"

record 'e StabilizeSkill = "'e Skill" +
  stabilize_theta_level :: real
  stabilize_history :: stabilize_history

record center_history =
  chist_y :: "real list"
  chist_theta :: "real list"

record 'e CenterSkill = "'e Skill" +
  x_center :: real
  center_history :: center_history

record 'e LandingSkill = "'e Skill" +
  x_landing :: real
  y_landing :: real
  theta_level :: real

type_synonym 'i step_result = "observation \<times> real \<times> flag \<times> flag \<times> 'i"

definition StabilizeSkill_init :: "'e \<Rightarrow> 'e StabilizeSkill" where
  "StabilizeSkill_init e =
     \<lparr>env = e, stabilize_theta_level = 0,
      stabilize_history = \<lparr>hist_x = [], hist_y = [], hist_theta = []\<rparr>\<rparr>"

definition CenterSkill_init :: "'e \<Rightarrow> 'e CenterSkill" where
  "CenterSkill_init e =
     \<lparr>env = e, x_center = 0, center_history = \<lparr>chist_y = [], chist_theta = []\<rparr>\<rparr>"

definition LandingSkill_init :: "'e \<Rightarrow> 'e LandingSkill" where
  "LandingSkill_init e = \<lparr>env = e, x_landing = 0, y_landing = 0, theta_level = 0\<rparr>"

definition stabilize_append :: "real \<Rightarrow> real \<Rightarrow> real \<Rightarrow> stabilize_history \<Rightarrow> stabilize_history" where
  "stabilize_append x y theta h =
     \<lparr>hist_x = hist_x h @ [x], hist_y = hist_y h @ [y], hist_theta = hist_theta h @ [theta]\<rparr>"

definition stabilize_empty :: stabilize_history where
  "stabilize_empty = \<lparr>hist_x = [], hist_y = [], hist_theta = []\<rparr>"

definition stabilize_skill_reward ::
  "('e \<Rightarrow> 'e) \<Rightarrow> 'e StabilizeSkill \<Rightarrow> observation \<Rightarrow> real \<Rightarrow> flag \<Rightarrow> flag \<Rightarrow> 'i
     \<Rightarrow> error + ('i step_result \<times> 'e StabilizeSkill)" where
  "stabilize_skill_reward reset self observation reward terminated truncated info =
     (if truthy terminated \<or> truthy truncated then
        Inr ((observation, - 100, terminated, truncated, info),
             self\<lparr>stabilize_history := stabilize_empty\<rparr>)
      else
        ebind (getitem observation 0) (\<lambda>x.
        ebind (getitem observation 1) (\<lambda>y.
        ebind (getitem observation 4) (\<lambda>theta.
          if length (hist_x (stabilize_history self)) = 0 then
            Inr ((observation, 1, PyInt 0, PyInt 0, info),
                 self\<lparr>stabilize_history := stabilize_append x y theta (stabilize_history self)\<rparr>)
          else
            ebind (last_item (hist_x (stabilize_history self))) (\<lambda>px.
            ebind (last_item (hist_y (stabilize_history self))) (\<lambda>py.
            ebind (last_item (hist_theta (stabilize_history self))) (\<lambda>ptheta.
              let r1 = 1 - (\<bar>px - x\<bar> * 10) ^ 2;
                  r2 = r1 - (\<bar>py - y\<bar> * 10) ^ 2;
                  r3 = r2 - (\<bar>ptheta - theta\<bar> * 10) ^ 2;
                  h = stabilize_append x y theta (stabilize_history self)
              in if length (hist_x h) > 300 then
                   Inr ((observation, 10, PyBool True, PyInt 0, info),
                        self\<lparr>env := reset (env self), stabilize_history := stabilize_empty\<rparr>)
                 else
                   Inr ((observation, r3, PyInt 0, PyInt 0, info),
                        self\<lparr>stabilize_history := h\<rparr>))))))))"

definition center_append :: "real \<Rightarrow> real \<Rightarrow> center_history \<Rightarrow> center_history" where
  "center_append y theta h = \<lparr>chist_y = chist_y h @ [y], chist_theta = chist_theta h @ [theta]\<rparr>"

definition center_empty :: center_history where
  "center_empty = \<lparr>chist_y = [], chist_theta = []\<rparr>"

definition center_skill_reward ::
  "('e \<Rightarrow> 'e) \<Rightarrow> 'e CenterSkill \<Rightarrow> observation \<Rightarrow> real \<Rightarrow> flag \<Rightarrow> flag \<Rightarrow> 'i
     \<Rightarrow> error + ('i step_result \<times> 'e CenterSkill)" where
  "center_skill_reward reset self observation reward terminated truncated info =
     (if truthy terminated \<or> truthy truncated then
        Inr ((observation, - 1000, terminated, truncated, info),
             self\<lparr>center_history := center_empty\<rparr>)
      else
        ebind (getitem observation 0) (\<lambda>x.
        ebind (getitem observation 1) (\<lambda>y.
        ebind (getitem observation 4) (\<lambda>theta.
          if length (chist_y (center_history self)) = 0 then
            Inr ((observation, 1, PyInt 0, PyInt 0, info),
                 self\<lparr>center_history := center_append y theta (center_history self)\<rparr>)
          else
            let r1 = 1 - \<bar>(x_center self - x) * 2\<bar> ^ 2 in
            ebind (last_item (chist_y (center_history self))) (\<lambda>py.
              let r2 = r1 - (\<bar>py - y\<bar> * 10) ^ 2 in
              ebind (last_item (chist_theta (center_history self))) (\<lambda>ptheta.
                let r3 = r2 - (\<bar>ptheta - theta\<bar> * 10) ^ 2;
                    h = center_append y theta (center_history self)
                in if length (chist_y h) > 300 then
                     Inr ((observation, 10, PyBool True, PyInt 0, info),
                          self\<lparr>env := reset (env self), center_history := center_empty\<rparr>)
                   else
                     Inr ((observation, r3, PyInt 0, PyInt 0, info),
                          self\<lparr>center_history := h\<rparr>)))))))"

definition landing_skill_reward ::
  "'e LandingSkill \<Rightarrow> observation \<Rightarrow> real \<Rightarrow> flag \<Rightarrow> flag \<Rightarrow> 'i
     \<Rightarrow> error + ('i step_result \<times> 'e LandingSkill)" where
  "landing_skill_reward self observation reward terminated truncated info =
     (if truthy terminated \<or> truthy truncated then
        Inr ((observation, reward, terminated, truncated, info), self)
      else
        ebind (getitem observation 0) (\<lambda>x.
        ebind (getitem observation 1) (\<lambda>y.
        ebind (getitem observation 4) (\<lambda>theta.
          let r1 = 1 - \<bar>x_landing self - x\<bar> ^ 2;
              r2 = r1 - \<bar>y_landing self - y\<bar> ^ 2;
              r3 = r2 - \<bar>theta_level self - theta\<bar>
          in Inr ((observation, r3, PyInt 0, PyInt 0, info), self)))))"

section \<open>The selector training loop\<close>

text \<open>
  The second half of the script trains the selector. Everything it calls belongs to the
  external library: the vectorised environment (\<^verbatim>\<open>env.reset\<close>, \<^verbatim>\<open>env.step\<close>) and
  the PPO agents (\<^verbatim>\<open>getAction\<close>, \<^verbatim>\<open>learn\<close>). The library is a parameter of the
  model, a record of functions over an opaque environment state \<open>'e\<close> and an opaque
  policy state \<open>'p\<close> (network weights and sampler state); \<^verbatim>\<open>getAction\<close> may change the
  policy state it is called on. The environment is built with \<^verbatim>\<open>num_envs=1\<close>, so
  every batched array has one row, and the model carries that row: \<^verbatim>\<open>state[0]\<close> is
  the observation, \<^verbatim>\<open>action[0]\<close> the action, \<^verbatim>\<open>np.any(termination)\<close> the flag.
\<close>

type_synonym action = int

type_synonym step_out = "observation \<times> real \<times> bool \<times> bool"

record rollout =
  states :: "observation list"
  actions :: "action list"
  log_probs :: "real list"
  rewards :: "real list"
  terminations :: "bool list"
  values_list :: "real list"

record ('e, 'p) library =
  env_reset :: "'e \<Rightarrow> 'e \<times> observation"
  env_step :: "'e \<Rightarrow> action \<Rightarrow> 'e \<times> step_out"
  getAction :: "'p \<Rightarrow> observation \<Rightarrow> 'p \<times> action \<times> real \<times> real"
  learn :: "'p \<Rightarrow> rollout \<Rightarrow> observation \<Rightarrow> 'p"

text \<open>
  The agent objects of the script: the members of \<^verbatim>\<open>pop\<close> and the three loaded
  skill agents. Besides its policy an agent carries the lists \<^verbatim>\<open>scores\<close> and
  \<^verbatim>\<open>steps\<close> that the script itself updates.
\<close>

datatype agent_ref = Selector nat | stabilize_agent | center_agent | landing_agent

record 'p agent_obj =
  policy :: 'p
  scores :: "real list"
  steps :: "nat list"

text \<open>
  The calls made to the library, in order. The trace is ghost state: the script never
  reads it, the theorems do.
\<close>

datatype call =
    EnvReset
  | EnvStep action step_out
  | GetAction agent_ref
  | Learn agent_ref rollout observation

text \<open>
  The variables of the script that the loop reads and writes. A variable that is
  assigned only inside a loop body is \<open>None\<close> until then, and reading it unassigned is a
  \<open>NameError\<close>. Three names differ from the script's: \<open>vec_env\<close> is its \<^verbatim>\<open>env\<close>,
  \<open>termination_v\<close> its \<^verbatim>\<open>termination\<close>, and \<open>buffers\<close> holds its six lists \<^verbatim>\<open>states\<close>,
  \<^verbatim>\<open>actions\<close>, \<^verbatim>\<open>log_probs\<close>, \<^verbatim>\<open>rewards\<close>, \<^verbatim>\<open>terminations\<close> and \<^verbatim>\<open>values\<close> (the
  last one as \<open>values_list\<close>).
\<close>

record ('e, 'p) script_state =
  vec_env :: 'e
  agents :: "agent_ref \<Rightarrow> 'p agent_obj"
  trace :: "call list"
  total_steps :: nat
  state :: observation
  score :: real
  buffers :: rollout
  reward :: real
  next_state :: "observation option"
  termination_v :: "bool option"
  truncation :: "bool option"

record skill_entry =
  skill :: string
  agent :: agent_ref
  skill_duration :: nat

definition trained_skills :: "action \<Rightarrow> skill_entry option" where
  "trained_skills =
     [0 \<mapsto> \<lparr>skill = ''stabilize'', agent = stabilize_agent, skill_duration = 40\<rparr>,
      1 \<mapsto> \<lparr>skill = ''center'', agent = center_agent, skill_duration = 40\<rparr>,
      2 \<mapsto> \<lparr>skill = ''landing'', agent = landing_agent, skill_duration = 40\<rparr>]"

definition lookup :: "('k \<Rightarrow> 'v option) \<Rightarrow> 'k \<Rightarrow> error + 'v" where
  "lookup d k = (case d k of None \<Rightarrow> Inl KeyError | Some v \<Rightarrow> Inr v)"

definition read_var :: "'a option \<Rightarrow> error + 'a" where
  "read_var v = (case v of None \<Rightarrow> Inl NameError | Some x \<Rightarrow> Inr x)"

definition env_step_call ::
  "('e, 'p) library \<Rightarrow> action \<Rightarrow> ('e, 'p) script_state \<Rightarrow> ('e, 'p) script_state \<times> step_out" where
  "env_step_call lib a s =
     (let (e', out) = env_step lib (vec_env s) a
      in (s\<lparr>vec_env := e', trace := trace s @ [EnvStep a out]\<rparr>, out))"

definition getAction_call ::
  "('e, 'p) library \<Rightarrow> agent_ref \<Rightarrow> observation \<Rightarrow> ('e, 'p) script_state
     \<Rightarrow> ('e, 'p) script_state \<times> action \<times> real \<times> real" where
  "getAction_call lib ag obs s =
     (let (p', out) = getAction lib (policy (agents s ag)) obs
      in (s\<lparr>agents := (agents s)(ag := (agents s ag)\<lparr>policy := p'\<rparr>),
            trace := trace s @ [GetAction ag]\<rparr>, out))"

definition learn_call ::
  "('e, 'p) library \<Rightarrow> agent_ref \<Rightarrow> rollout \<Rightarrow> observation \<Rightarrow> ('e, 'p) script_state
     \<Rightarrow> ('e, 'p) script_state" where
  "learn_call lib ag ro ns s =
     s\<lparr>agents := (agents s)(ag := (agents s ag)\<lparr>policy := learn lib (policy (agents s ag)) ro ns\<rparr>),
       trace := trace s @ [Learn ag ro ns]\<rparr>"

text \<open>\<^verbatim>\<open>state[0][6] or state[0][7]\<close>, read as a condition: the second index is only
  evaluated when the first component is zero.\<close>

definition landed :: "observation \<Rightarrow> error + bool" where
  "landed obs =
     ebind (getitem obs 6) (\<lambda>l.
       if l \<noteq> 0 then Inr True else ebind (getitem obs 7) (\<lambda>r. Inr (r \<noteq> 0)))"

text \<open>One pass through the body of \<^verbatim>\<open>for skill_step in range(skill_duration)\<close>; the
  boolean says whether the pass ended in \<^verbatim>\<open>break\<close>.\<close>

definition skill_iteration ::
  "('e, 'p) library \<Rightarrow> agent_ref \<Rightarrow> ('e, 'p) script_state
     \<Rightarrow> error + (('e, 'p) script_state \<times> bool)" where
  "skill_iteration lib skill_agent s =
     ebind (landed (state s)) (\<lambda>l.
       let (s1, ns, skill_reward, te, tr) =
             (if l then env_step_call lib 0 s
              else
                let (s0, skill_action, lp, v) = getAction_call lib skill_agent (state s) s
                in env_step_call lib skill_action s0);
           s2 = s1\<lparr>next_state := Some ns, termination_v := Some te, truncation := Some tr,
                   reward := reward s1 + skill_reward\<rparr>
       in if te \<or> tr then Inr (s2, True) else Inr (s2\<lparr>state := ns\<rparr>, False))"

fun skill_loop ::
  "('e, 'p) library \<Rightarrow> agent_ref \<Rightarrow> nat \<Rightarrow> ('e, 'p) script_state \<Rightarrow> error + ('e, 'p) script_state" where
  "skill_loop lib skill_agent 0 s = Inr s"
| "skill_loop lib skill_agent (Suc n) s =
     ebind (skill_iteration lib skill_agent s) (\<lambda>(s', brk).
       if brk then Inr s' else skill_loop lib skill_agent n s')"

text \<open>One pass through the body of \<^verbatim>\<open>for idx_step in range(500)\<close>.\<close>

definition selector_step ::
  "('e, 'p) library \<Rightarrow> agent_ref \<Rightarrow> ('e, 'p) script_state \<Rightarrow> error + ('e, 'p) script_state" where
  "selector_step lib ag s =
     (let (s1, act, log_prob, val) = getAction_call lib ag (state s) s in
      ebind (lookup trained_skills act) (\<lambda>entry.
      ebind (skill_loop lib (agent entry) (skill_duration entry) (s1\<lparr>reward := 0\<rparr>)) (\<lambda>s2.
        let s3 = s2\<lparr>score := score s2 + reward s2\<rparr>;
            b = buffers s3
        in ebind (read_var (termination_v s3)) (\<lambda>t.
             Inr (s3\<lparr>buffers :=
                    \<lparr>states = states b @ [state s3],
                     actions = actions b @ [act],
                     log_probs = log_probs b @ [log_prob],
                     rewards = rewards b @ [reward s3],
                     terminations = terminations b @ [t],
                     values_list = values_list b @ [val]\<rparr>\<rparr>)))))"

fun selector_loop ::
  "('e, 'p) library \<Rightarrow> agent_ref \<Rightarrow> nat \<Rightarrow> ('e, 'p) script_state \<Rightarrow> error + ('e, 'p) script_state" where
  "selector_loop lib ag 0 s = Inr s"
| "selector_loop lib ag (Suc n) s = ebind (selector_step lib ag s) (selector_loop lib ag n)"

definition empty_rollout :: rollout where
  "empty_rollout =
     \<lparr>states = [], actions = [], log_probs = [], rewards = [], terminations = [], values_list = []\<rparr>"

text \<open>\<^verbatim>\<open>agent.steps[-1] += n\<close>.\<close>

definition add_to_last :: "nat \<Rightarrow> nat list \<Rightarrow> error + nat list" where
  "add_to_last n xs = (if xs = [] then Inl IndexError else Inr (butlast xs @ [last xs + n]))"

text \<open>
  The body of \<^verbatim>\<open>for agent in pop\<close>: one episode of one selector agent. The outer
  step loop has no \<^verbatim>\<open>break\<close>, so \<^verbatim>\<open>idx_step + 1\<close> is 500 after it.
\<close>

definition train_agent ::
  "('e, 'p) library \<Rightarrow> agent_ref \<Rightarrow> ('e, 'p) script_state \<Rightarrow> error + ('e, 'p) script_state" where
  "train_agent lib ag s =
     (let (e', obs) = env_reset lib (vec_env s);
          s0 = s\<lparr>vec_env := e', trace := trace s @ [EnvReset], state := obs, score := 0,
                 buffers := empty_rollout\<rparr>
      in ebind (selector_loop lib ag 500 s0) (\<lambda>s1.
           let s2 = s1\<lparr>agents := (agents s1)(ag := (agents s1 ag)\<lparr>scores := scores (agents s1 ag) @ [score s1]\<rparr>)\<rparr>
           in ebind (read_var (next_state s2)) (\<lambda>ns.
                let s3 = learn_call lib ag (buffers s2) ns s2
                in ebind (add_to_last 500 (steps (agents s3 ag))) (\<lambda>st.
                     Inr (s3\<lparr>agents := (agents s3)(ag := (agents s3 ag)\<lparr>steps := st\<rparr>),
                             total_steps := total_steps s3 + 500\<rparr>)))))"

text \<open>
  The two outer loops. What follows the population loop in an episode (the mean of the
  last scores, the experiment-tracking log and the printed summary) reads the state and
  changes nothing of it.
\<close>

fun population_loop ::
  "('e, 'p) library \<Rightarrow> agent_ref list \<Rightarrow> ('e, 'p) script_state \<Rightarrow> error + ('e, 'p) script_state" where
  "population_loop lib [] s = Inr s"
| "population_loop lib (ag # pop) s = ebind (train_agent lib ag s) (population_loop lib pop)"

fun episode_loop ::
  "('e, 'p) library \<Rightarrow> agent_ref list \<Rightarrow> nat \<Rightarrow> ('e, 'p) script_state \<Rightarrow> error + ('e, 'p) script_state" where
  "episode_loop lib pop 0 s = Inr s"
| "episode_loop lib pop (Suc n) s = ebind (population_loop lib pop s) (episode_loop lib pop n)"

definition POPULATION_SIZE :: nat where
  "POPULATION_SIZE = 1"

definition EPISODES :: nat where
  "EPISODES = 1000"

definition selector_training ::
  "('e, 'p) library \<Rightarrow> ('e, 'p) script_state \<Rightarrow> error + ('e, 'p) script_state" where
  "selector_training lib s =
     episode_loop lib (map Selector [0..<POPULATION_SIZE]) EPISODES s"

subsection \<open>Reading the trace\<close>

definition new_events :: "('e, 'p) script_state \<Rightarrow> ('e, 'p) script_state \<Rightarrow> call list" where
  "new_events s s' = drop (length (trace s)) (trace s')"

fun step_outs :: "call list \<Rightarrow> step_out list" where
  "step_outs [] = []"
| "step_outs (EnvStep a out # cs) = out # step_outs cs"
| "step_outs (c # cs) = step_outs cs"

definition out_reward :: "step_out \<Rightarrow> real" where
  "out_reward out = (case out of (ns, r, te, tr) \<Rightarrow> r)"

definition ends_episode :: "step_out \<Rightarrow> bool" where
  "ends_episode out = (case out of (ns, r, te, tr) \<Rightarrow> te \<or> tr)"

section \<open>Invariants and example inputs\<close>

definition example_obs :: observation where
  "example_obs = [1 / 2, 1, 0, 0, 1 / 4, 0, 0, 0]"

definition stabilize_one :: "nat StabilizeSkill" where
  "stabilize_one =
     \<lparr>env = 0, stabilize_theta_level = 0,
      stabilize_history = \<lparr>hist_x = [1], hist_y = [1], hist_theta = [0]\<rparr>\<rparr>"

definition center_one :: "nat CenterSkill" where
  "center_one = \<lparr>env = 0, x_center = 0, center_history = \<lparr>chist_y = [1], chist_theta = [0]\<rparr>\<rparr>"

definition stabilize_full :: "nat StabilizeSkill" where
  "stabilize_full =
     \<lparr>env = 0, stabilize_theta_level = 0,
      stabilize_history =
        \<lparr>hist_x = replicate 300 0, hist_y = replicate 300 0, hist_theta = replicate 300 0\<rparr>\<rparr>"

definition center_full :: "nat CenterSkill" where
  "center_full =
     \<lparr>env = 0, x_center = 0,
      center_history = \<lparr>chist_y = replicate 300 0, chist_theta = replicate 300 0\<rparr>\<rparr>"

definition stabilize_inv :: "'e StabilizeSkill \<Rightarrow> bool" where
  "stabilize_inv s =
     (length (hist_x (stabilize_history s)) = length (hist_y (stabilize_history s)) \<and>
      length (hist_y (stabilize_history s)) = length (hist_theta (stabilize_history s)) \<and>
      length (hist_x (stabilize_history s)) \<le> 300)"

definition center_inv :: "'e CenterSkill \<Rightarrow> bool" where
  "center_inv c =
     (length (chist_y (center_history c)) = length (chist_theta (center_history c)) \<and>
      length (chist_y (center_history c)) \<le> 300)"

text \<open>Further readings of a trace: the \<^verbatim>\<open>learn\<close> calls and the targets of the
  \<^verbatim>\<open>getAction\<close> calls, in order.\<close>

fun learn_calls :: "call list \<Rightarrow> (agent_ref \<times> rollout \<times> observation) list" where
  "learn_calls [] = []"
| "learn_calls (Learn a ro ns # cs) = (a, ro, ns) # learn_calls cs"
| "learn_calls (c # cs) = learn_calls cs"

fun getAction_calls :: "call list \<Rightarrow> agent_ref list" where
  "getAction_calls [] = []"
| "getAction_calls (GetAction a # cs) = a # getAction_calls cs"
| "getAction_calls (c # cs) = getAction_calls cs"

text \<open>
  A small library to run the loop on: the environment state counts the steps taken,
  the \<open>n\<close>-th step pays the reward \<open>n\<close> and terminates when \<open>k\<close> divides \<open>n\<close> (never for
  \<open>k = 0\<close>, always for \<open>k = 1\<close>); a policy counts its calls and answers with the actions
  0, 1, 2 in turn.
\<close>

definition example_lib :: "nat \<Rightarrow> (nat, nat) library" where
  "example_lib k =
     \<lparr>env_reset = (\<lambda>e. (0, replicate 8 0)),
      env_step = (\<lambda>e a. (Suc e, ([of_int a, 0, 0, 0, 0, 0, 0, 0], real (Suc e), Suc e mod k = 0, False))),
      getAction = (\<lambda>p obs. (Suc p, int (p mod 3), - 1, 1 / 2)),
      learn = (\<lambda>p ro ns. p + 1000)\<rparr>"

definition example_state :: "(nat, nat) script_state" where
  "example_state =
     \<lparr>vec_env = 0, agents = (\<lambda>a. \<lparr>policy = 0, scores = [], steps = [0]\<rparr>), trace = [],
      total_steps = 0, state = replicate 8 0, score = 0, buffers = empty_rollout, reward = 0,
      next_state = None, termination_v = None, truncation = None\<rparr>"

definition landed_state :: "(nat, nat) script_state" where
  "landed_state = example_state\<lparr>state := [0, 0, 0, 0, 0, 0, 1, 0]\<rparr>"

text \<open>The state after one selector step in an environment whose every step terminates.\<close>

definition ended_state :: "(nat, nat) script_state" where
  "ended_state =
     example_state
       \<lparr>vec_env := 1,
        agents := (agents example_state)
          (Selector 0 := \<lparr>policy = 1, scores = [], steps = [0]\<rparr>,
           stabilize_agent := \<lparr>policy = 1, scores = [], steps = [0]\<rparr>),
        trace := [GetAction (Selector 0), GetAction stabilize_agent,
                  EnvStep 0 ([0, 0, 0, 0, 0, 0, 0, 0], 1, True, False)],
        score := 1,
        buffers := \<lparr>states = [replicate 8 0], actions = [0], log_probs = [- 1], rewards = [1],
                    terminations = [True], values_list = [1 / 2]\<rparr>,
        reward := 1,
        next_state := Some [0, 0, 0, 0, 0, 0, 0, 0],
        termination_v := Some True,
        truncation := Some False\<rparr>"

text \<open>
  What the loop needs from the library to run without an exception: observations with
  the eight components of LunarLander, and selector policies whose actions are keys of
  \<^verbatim>\<open>trained_skills\<close>. The policies a selector can reach are described by a predicate
  \<open>P\<close> that \<^verbatim>\<open>getAction\<close> and \<^verbatim>\<open>learn\<close> keep.
\<close>

definition skill_agents :: "agent_ref set" where
  "skill_agents = {stabilize_agent, center_agent, landing_agent}"

definition obs_ok :: "('e, 'p) library \<Rightarrow> bool" where
  "obs_ok lib =
     ((\<forall>e. 8 \<le> length (snd (env_reset lib e))) \<and>
      (\<forall>e a. 8 \<le> length (fst (snd (env_step lib e a)))))"

definition policy_ok :: "('e, 'p) library \<Rightarrow> ('p \<Rightarrow> bool) \<Rightarrow> bool" where
  "policy_ok lib P =
     ((\<forall>p obs. P p \<longrightarrow>
         P (fst (getAction lib p obs)) \<and> fst (snd (getAction lib p obs)) \<in> {0, 1, 2}) \<and>
      (\<forall>p ro ns. P p \<longrightarrow> P (learn lib p ro ns)))"

section \<open>Properties of the reward-shaping wrappers\<close>

lemma ebind_Inr_iff: "ebind m f = Inr r \<longleftrightarrow> (\<exists>v. m = Inr v \<and> f v = Inr r)"
  by (cases m) (simp_all add: ebind_def)

lemma ebind_Inr [simp]: "ebind (Inr v) f = f v"
  by (simp add: ebind_def)

lemma ebind_Inl [simp]: "ebind (Inl e) f = Inl e"
  by (simp add: ebind_def)

lemma getitem_Inr_iff: "getitem xs i = Inr v \<longleftrightarrow> i < length xs \<and> v = xs ! i"
  by (auto simp: getitem_def)

lemma getitem_in_range: "i < length xs \<Longrightarrow> getitem xs i = Inr (xs ! i)"
  by (simp add: getitem_def)

lemma getitem_obs:
  assumes "5 \<le> length obs"
  shows "getitem obs 0 = Inr (obs ! 0)" "getitem obs (Suc 0) = Inr (obs ! Suc 0)"
    "getitem obs 4 = Inr (obs ! 4)"
  using assms by (auto simp: getitem_def)

lemma last_item_nonempty: "xs \<noteq> [] \<Longrightarrow> last_item xs = Inr (last xs)"
  by (simp add: last_item_def)

lemma last_item_Inr_iff: "last_item xs = Inr v \<longleftrightarrow> xs \<noteq> [] \<and> v = last xs"
  by (auto simp: last_item_def)

lemma stabilize_nonterminal_first:
  assumes "\<not> truthy te" "\<not> truthy tr" "5 \<le> length obs" "hist_x (stabilize_history s) = []"
  shows "stabilize_skill_reward reset s obs r te tr info =
           Inr ((obs, 1, PyInt 0, PyInt 0, info),
                s\<lparr>stabilize_history := stabilize_append (obs ! 0) (obs ! 1) (obs ! 4) (stabilize_history s)\<rparr>)"
  using assms by (simp add: stabilize_skill_reward_def getitem_obs)

lemma stabilize_nonterminal_next:
  assumes "\<not> truthy te" "\<not> truthy tr" "5 \<le> length obs"
    and "hist_x (stabilize_history s) \<noteq> []" "hist_y (stabilize_history s) \<noteq> []"
        "hist_theta (stabilize_history s) \<noteq> []"
  shows "stabilize_skill_reward reset s obs r te tr info =
           (if 300 \<le> length (hist_x (stabilize_history s)) then
              Inr ((obs, 10, PyBool True, PyInt 0, info),
                   s\<lparr>env := reset (env s), stabilize_history := stabilize_empty\<rparr>)
            else
              Inr ((obs,
                    1 - (\<bar>last (hist_x (stabilize_history s)) - obs ! 0\<bar> * 10)\<^sup>2
                      - (\<bar>last (hist_y (stabilize_history s)) - obs ! 1\<bar> * 10)\<^sup>2
                      - (\<bar>last (hist_theta (stabilize_history s)) - obs ! 4\<bar> * 10)\<^sup>2,
                    PyInt 0, PyInt 0, info),
                   s\<lparr>stabilize_history := stabilize_append (obs ! 0) (obs ! 1) (obs ! 4) (stabilize_history s)\<rparr>))"
  using assms
  by (simp add: stabilize_skill_reward_def getitem_obs last_item_nonempty Let_def
      stabilize_append_def)

lemma center_nonterminal_first:
  assumes "\<not> truthy te" "\<not> truthy tr" "5 \<le> length obs" "chist_y (center_history c) = []"
  shows "center_skill_reward reset c obs r te tr info =
           Inr ((obs, 1, PyInt 0, PyInt 0, info),
                c\<lparr>center_history := center_append (obs ! 1) (obs ! 4) (center_history c)\<rparr>)"
  using assms by (simp add: center_skill_reward_def getitem_obs)

lemma center_nonterminal_next:
  assumes "\<not> truthy te" "\<not> truthy tr" "5 \<le> length obs"
    and "chist_y (center_history c) \<noteq> []" "chist_theta (center_history c) \<noteq> []"
  shows "center_skill_reward reset c obs r te tr info =
           (if 300 \<le> length (chist_y (center_history c)) then
              Inr ((obs, 10, PyBool True, PyInt 0, info),
                   c\<lparr>env := reset (env c), center_history := center_empty\<rparr>)
            else
              Inr ((obs,
                    1 - \<bar>(x_center c - obs ! 0) * 2\<bar>\<^sup>2
                      - (\<bar>last (chist_y (center_history c)) - obs ! 1\<bar> * 10)\<^sup>2
                      - (\<bar>last (chist_theta (center_history c)) - obs ! 4\<bar> * 10)\<^sup>2,
                    PyInt 0, PyInt 0, info),
                   c\<lparr>center_history := center_append (obs ! 1) (obs ! 4) (center_history c)\<rparr>))"
  using assms
  by (simp add: center_skill_reward_def getitem_obs last_item_nonempty Let_def
      center_append_def)

lemma landing_nonterminal:
  assumes "\<not> truthy te" "\<not> truthy tr" "5 \<le> length obs"
  shows "landing_skill_reward l obs r te tr info =
           Inr ((obs, 1 - \<bar>x_landing l - obs ! 0\<bar>\<^sup>2 - \<bar>y_landing l - obs ! 1\<bar>\<^sup>2
                        - \<bar>theta_level l - obs ! 4\<bar>, PyInt 0, PyInt 0, info), l)"
  using assms by (simp add: landing_skill_reward_def getitem_obs Let_def)

text \<open>
  Claim C4. Whenever \<^verbatim>\<open>skill_reward\<close> of \<^verbatim>\<open>StabilizeSkill\<close>, \<^verbatim>\<open>CenterSkill\<close> or
  \<^verbatim>\<open>LandingSkill\<close> returns, the observation and the info of the returned step are the
  observation and the info it was called with: only the reward and the two flags of a
  step can differ from what came in.
\<close>

theorem skill_reward_keeps_observation_and_info:
  "(stabilize_skill_reward reset s obs r te tr info = Inr ((obs1, r1, te1, tr1, info1), s') \<longrightarrow>
      obs1 = obs \<and> info1 = info) \<and>
   (center_skill_reward reset c obs r te tr info = Inr ((obs2, r2, te2, tr2, info2), c') \<longrightarrow>
      obs2 = obs \<and> info2 = info) \<and>
   (landing_skill_reward l obs r te tr info = Inr ((obs3, r3, te3, tr3, info3), l') \<longrightarrow>
      obs3 = obs \<and> info3 = info)"
proof (intro conjI impI)
  assume "stabilize_skill_reward reset s obs r te tr info = Inr ((obs1, r1, te1, tr1, info1), s')"
  then show "obs1 = obs" "info1 = info"
    by (auto simp: stabilize_skill_reward_def ebind_Inr_iff Let_def split: if_splits)
next
  assume "center_skill_reward reset c obs r te tr info = Inr ((obs2, r2, te2, tr2, info2), c')"
  then show "obs2 = obs" "info2 = info"
    by (auto simp: center_skill_reward_def ebind_Inr_iff Let_def split: if_splits)
next
  assume "landing_skill_reward l obs r te tr info = Inr ((obs3, r3, te3, tr3, info3), l')"
  then show "obs3 = obs" "info3 = info"
    by (auto simp: landing_skill_reward_def ebind_Inr_iff Let_def split: if_splits)
qed

theorem skill_reward_keeps_observation_and_info_witness:
  "stabilize_skill_reward Suc stabilize_one example_obs 3 (PyBool False) (PyBool False) ''info''
     = Inr ((example_obs, - (121 / 4), PyInt 0, PyInt 0, ''info''),
            stabilize_one\<lparr>stabilize_history :=
              \<lparr>hist_x = [1, 1 / 2], hist_y = [1, 1], hist_theta = [0, 1 / 4]\<rparr>\<rparr>) \<and>
   center_skill_reward Suc center_one example_obs 3 (PyBool True) (PyBool False) ''info''
     = Inr ((example_obs, - 1000, PyBool True, PyBool False, ''info''),
            center_one\<lparr>center_history := \<lparr>chist_y = [], chist_theta = []\<rparr>\<rparr>) \<and>
   landing_skill_reward (LandingSkill_init (0::nat)) example_obs 3 (PyBool False) (PyBool False) ''info''
     = Inr ((example_obs, - (1 / 2), PyInt 0, PyInt 0, ''info''), LandingSkill_init 0) \<and>
   example_obs = example_obs \<and> ''info'' = ''info''"
  using skill_reward_keeps_observation_and_info
    [where reset = Suc and s = stabilize_one and obs = example_obs and r = 3
       and te = "PyBool False" and tr = "PyBool False" and info = "''info''"]
  by (simp add: stabilize_skill_reward_def center_skill_reward_def landing_skill_reward_def
      stabilize_one_def center_one_def example_obs_def LandingSkill_init_def getitem_def
      last_item_def stabilize_append_def center_empty_def Let_def power2_eq_square)

text \<open>
  Claim C5. On a step that neither terminated nor was truncated, with an observation
  that has the components 0, 1 and 4: when the history lists hold between 1 and 299
  entries, \<^verbatim>\<open>StabilizeSkill.skill_reward\<close> returns the reward
  \<open>1 - (10|x\<^sub>p - x|)\<^sup>2 - (10|y\<^sub>p - y|)\<^sup>2 - (10|\<theta>\<^sub>p - \<theta>|)\<^sup>2\<close> and \<^verbatim>\<open>CenterSkill.skill_reward\<close>
  returns \<open>1 - (2|x_center - x|)\<^sup>2 - (10|y\<^sub>p - y|)\<^sup>2 - (10|\<theta>\<^sub>p - \<theta>|)\<^sup>2\<close>, where
  \<open>x\<close>, \<open>y\<close>, \<open>\<theta>\<close> are the components 0, 1 and 4 of the observation and the values with
  index \<open>p\<close> are the last entries of the history lists; when the history is empty, both
  return the reward 1 with both flags 0, and the history holds the current observation
  afterwards.
\<close>

theorem shaped_reward_formulas:
  assumes "\<not> truthy te" and "\<not> truthy tr" and "5 \<le> length obs"
  shows
    "(length (hist_x (stabilize_history s)) = n \<and> length (hist_y (stabilize_history s)) = n \<and>
      length (hist_theta (stabilize_history s)) = n \<and> 1 \<le> n \<and> n \<le> 299 \<longrightarrow>
        stabilize_skill_reward reset s obs r te tr info =
          Inr ((obs,
                1 - (10 * \<bar>last (hist_x (stabilize_history s)) - obs ! 0\<bar>)\<^sup>2
                  - (10 * \<bar>last (hist_y (stabilize_history s)) - obs ! 1\<bar>)\<^sup>2
                  - (10 * \<bar>last (hist_theta (stabilize_history s)) - obs ! 4\<bar>)\<^sup>2,
                PyInt 0, PyInt 0, info),
               s\<lparr>stabilize_history :=
                   stabilize_append (obs ! 0) (obs ! 1) (obs ! 4) (stabilize_history s)\<rparr>)) \<and>
     (length (chist_y (center_history c)) = m \<and> length (chist_theta (center_history c)) = m \<and>
      1 \<le> m \<and> m \<le> 299 \<longrightarrow>
        center_skill_reward reset c obs r te tr info =
          Inr ((obs,
                1 - (2 * \<bar>x_center c - obs ! 0\<bar>)\<^sup>2
                  - (10 * \<bar>last (chist_y (center_history c)) - obs ! 1\<bar>)\<^sup>2
                  - (10 * \<bar>last (chist_theta (center_history c)) - obs ! 4\<bar>)\<^sup>2,
                PyInt 0, PyInt 0, info),
               c\<lparr>center_history := center_append (obs ! 1) (obs ! 4) (center_history c)\<rparr>)) \<and>
     (stabilize_history s0 = \<lparr>hist_x = [], hist_y = [], hist_theta = []\<rparr> \<longrightarrow>
        stabilize_skill_reward reset s0 obs r te tr info =
          Inr ((obs, 1, PyInt 0, PyInt 0, info),
               s0\<lparr>stabilize_history :=
                    \<lparr>hist_x = [obs ! 0], hist_y = [obs ! 1], hist_theta = [obs ! 4]\<rparr>\<rparr>)) \<and>
     (center_history c0 = \<lparr>chist_y = [], chist_theta = []\<rparr> \<longrightarrow>
        center_skill_reward reset c0 obs r te tr info =
          Inr ((obs, 1, PyInt 0, PyInt 0, info),
               c0\<lparr>center_history := \<lparr>chist_y = [obs ! 1], chist_theta = [obs ! 4]\<rparr>\<rparr>))"
proof (intro conjI impI)
  assume h: "length (hist_x (stabilize_history s)) = n \<and> length (hist_y (stabilize_history s)) = n \<and>
      length (hist_theta (stabilize_history s)) = n \<and> 1 \<le> n \<and> n \<le> 299"
  then have ne: "hist_x (stabilize_history s) \<noteq> []" "hist_y (stabilize_history s) \<noteq> []"
      "hist_theta (stabilize_history s) \<noteq> []"
    by auto
  from h have small: "\<not> 300 \<le> length (hist_x (stabilize_history s))"
    by simp
  show "stabilize_skill_reward reset s obs r te tr info =
          Inr ((obs,
                1 - (10 * \<bar>last (hist_x (stabilize_history s)) - obs ! 0\<bar>)\<^sup>2
                  - (10 * \<bar>last (hist_y (stabilize_history s)) - obs ! 1\<bar>)\<^sup>2
                  - (10 * \<bar>last (hist_theta (stabilize_history s)) - obs ! 4\<bar>)\<^sup>2,
                PyInt 0, PyInt 0, info),
               s\<lparr>stabilize_history :=
                   stabilize_append (obs ! 0) (obs ! 1) (obs ! 4) (stabilize_history s)\<rparr>)"
    using small by (simp add: stabilize_nonterminal_next [OF assms ne] mult.commute)
next
  assume h: "length (chist_y (center_history c)) = m \<and> length (chist_theta (center_history c)) = m \<and>
      1 \<le> m \<and> m \<le> 299"
  then have ne: "chist_y (center_history c) \<noteq> []" "chist_theta (center_history c) \<noteq> []"
    by auto
  from h have small: "\<not> 300 \<le> length (chist_y (center_history c))"
    by simp
  have "\<bar>(x_center c - obs ! 0) * 2\<bar> = 2 * \<bar>x_center c - obs ! 0\<bar>"
    by (simp only: abs_mult abs_numeral mult.commute)
  then have sq: "\<bar>(x_center c - obs ! 0) * 2\<bar>\<^sup>2 = (2 * \<bar>x_center c - obs ! 0\<bar>)\<^sup>2"
    by (rule arg_cong)
  show "center_skill_reward reset c obs r te tr info =
          Inr ((obs,
                1 - (2 * \<bar>x_center c - obs ! 0\<bar>)\<^sup>2
                  - (10 * \<bar>last (chist_y (center_history c)) - obs ! 1\<bar>)\<^sup>2
                  - (10 * \<bar>last (chist_theta (center_history c)) - obs ! 4\<bar>)\<^sup>2,
                PyInt 0, PyInt 0, info),
               c\<lparr>center_history := center_append (obs ! 1) (obs ! 4) (center_history c)\<rparr>)"
    using small by (simp only: center_nonterminal_next [OF assms ne] sq if_False mult.commute [of _ 10])
next
  assume h: "stabilize_history s0 = \<lparr>hist_x = [], hist_y = [], hist_theta = []\<rparr>"
  then have "hist_x (stabilize_history s0) = []" by simp
  from stabilize_nonterminal_first [OF assms this] h
  show "stabilize_skill_reward reset s0 obs r te tr info =
          Inr ((obs, 1, PyInt 0, PyInt 0, info),
               s0\<lparr>stabilize_history :=
                    \<lparr>hist_x = [obs ! 0], hist_y = [obs ! 1], hist_theta = [obs ! 4]\<rparr>\<rparr>)"
    by (simp add: stabilize_append_def)
next
  assume h: "center_history c0 = \<lparr>chist_y = [], chist_theta = []\<rparr>"
  then have "chist_y (center_history c0) = []" by simp
  from center_nonterminal_first [OF assms this] h
  show "center_skill_reward reset c0 obs r te tr info =
          Inr ((obs, 1, PyInt 0, PyInt 0, info),
               c0\<lparr>center_history := \<lparr>chist_y = [obs ! 1], chist_theta = [obs ! 4]\<rparr>\<rparr>)"
    by (simp add: center_append_def)
qed

theorem shaped_reward_formulas_witness:
  "stabilize_skill_reward Suc stabilize_one example_obs 3 (PyBool False) (PyInt 0) ''info''
     = Inr ((example_obs, - (121 / 4), PyInt 0, PyInt 0, ''info''),
            stabilize_one\<lparr>stabilize_history :=
              \<lparr>hist_x = [1, 1 / 2], hist_y = [1, 1], hist_theta = [0, 1 / 4]\<rparr>\<rparr>) \<and>
   center_skill_reward Suc center_one example_obs 3 (PyBool False) (PyInt 0) ''info''
     = Inr ((example_obs, - (25 / 4), PyInt 0, PyInt 0, ''info''),
            center_one\<lparr>center_history := \<lparr>chist_y = [1, 1], chist_theta = [0, 1 / 4]\<rparr>\<rparr>) \<and>
   stabilize_skill_reward Suc (StabilizeSkill_init 0) example_obs 3 (PyBool False) (PyInt 0) ''info''
     = Inr ((example_obs, 1, PyInt 0, PyInt 0, ''info''),
            (StabilizeSkill_init 0)\<lparr>stabilize_history :=
              \<lparr>hist_x = [1 / 2], hist_y = [1], hist_theta = [1 / 4]\<rparr>\<rparr>) \<and>
   center_skill_reward Suc (CenterSkill_init 0) example_obs 3 (PyBool False) (PyInt 0) ''info''
     = Inr ((example_obs, 1, PyInt 0, PyInt 0, ''info''),
            (CenterSkill_init 0)\<lparr>center_history := \<lparr>chist_y = [1], chist_theta = [1 / 4]\<rparr>\<rparr>)"
  using shaped_reward_formulas
    [where te = "PyBool False" and tr = "PyInt 0" and obs = example_obs and s = stabilize_one
       and n = 1 and c = center_one and m = 1 and ?s0.0 = "StabilizeSkill_init 0"
       and ?c0.0 = "CenterSkill_init 0" and reset = Suc and r = 3 and info = "''info''"]
  by (simp add: stabilize_one_def center_one_def example_obs_def StabilizeSkill_init_def
      CenterSkill_init_def stabilize_append_def center_append_def power2_eq_square)

text \<open>
  Claim C6. On a step that neither terminated nor was truncated (with an observation
  that has the components 0, 1 and 4), \<^verbatim>\<open>LandingSkill.skill_reward\<close> returns the
  reward \<open>1 - |x_landing - x|\<^sup>2 - |y_landing - y|\<^sup>2 - |theta_level - \<theta>|\<close> with the three
  targets 0, as the constructor sets them, and both flags 0. The returned step does not
  depend on the wrapped environment, the object is the same after every call (no
  history, no reset), and a flag of the returned step is only set when the base
  environment set it.
\<close>

theorem landing_skill_reward_formula:
  "(\<not> truthy te \<and> \<not> truthy tr \<and> 5 \<le> length obs \<and>
    x_landing l = 0 \<and> y_landing l = 0 \<and> theta_level l = 0 \<longrightarrow>
      landing_skill_reward l obs r te tr info =
        Inr ((obs, 1 - \<bar>0 - obs ! 0\<bar>\<^sup>2 - \<bar>0 - obs ! 1\<bar>\<^sup>2 - \<bar>0 - obs ! 4\<bar>, PyInt 0, PyInt 0, info), l)) \<and>
   x_landing (LandingSkill_init e) = 0 \<and> y_landing (LandingSkill_init e) = 0 \<and>
   theta_level (LandingSkill_init e) = 0 \<and>
   map_sum id fst (landing_skill_reward (LandingSkill_init e) obs r te tr info) =
     map_sum id fst (landing_skill_reward (LandingSkill_init e') obs r te tr info) \<and>
   (landing_skill_reward l obs r te tr info = Inr ((obs', r', te', tr', info'), l') \<longrightarrow>
      l' = l \<and> (truthy te' \<longrightarrow> truthy te \<and> te' = te) \<and> (truthy tr' \<longrightarrow> truthy tr \<and> tr' = tr))"
proof (intro conjI impI)
  assume h: "\<not> truthy te \<and> \<not> truthy tr \<and> 5 \<le> length obs \<and>
    x_landing l = 0 \<and> y_landing l = 0 \<and> theta_level l = 0"
  then have "landing_skill_reward l obs r te tr info =
           Inr ((obs, 1 - \<bar>x_landing l - obs ! 0\<bar>\<^sup>2 - \<bar>y_landing l - obs ! 1\<bar>\<^sup>2
                        - \<bar>theta_level l - obs ! 4\<bar>, PyInt 0, PyInt 0, info), l)"
    by (intro landing_nonterminal) simp_all
  with h show "landing_skill_reward l obs r te tr info =
        Inr ((obs, 1 - \<bar>0 - obs ! 0\<bar>\<^sup>2 - \<bar>0 - obs ! 1\<bar>\<^sup>2 - \<bar>0 - obs ! 4\<bar>, PyInt 0, PyInt 0, info), l)"
    by simp
next
  show "map_sum id fst (landing_skill_reward (LandingSkill_init e) obs r te tr info) =
     map_sum id fst (landing_skill_reward (LandingSkill_init e') obs r te tr info)"
    by (simp add: landing_skill_reward_def LandingSkill_init_def ebind_def Let_def
        split: sum.splits)
next
  assume h: "landing_skill_reward l obs r te tr info = Inr ((obs', r', te', tr', info'), l')"
  then show "l' = l"
    by (auto simp: landing_skill_reward_def ebind_Inr_iff Let_def split: if_splits)
  {
    assume "truthy te'"
    with h show "truthy te" "te' = te"
      by (auto simp: landing_skill_reward_def ebind_Inr_iff Let_def split: if_splits)
  }
  {
    assume "truthy tr'"
    with h show "truthy tr" "tr' = tr"
      by (auto simp: landing_skill_reward_def ebind_Inr_iff Let_def split: if_splits)
  }
qed (simp_all add: LandingSkill_init_def)

theorem landing_skill_reward_formula_witness:
  "landing_skill_reward (LandingSkill_init (0::nat)) example_obs 3 (PyBool False) (PyInt 0) ''info''
     = Inr ((example_obs, - (1 / 2), PyInt 0, PyInt 0, ''info''), LandingSkill_init 0) \<and>
   landing_skill_reward (LandingSkill_init (7::nat)) example_obs 3 (PyBool False) (PyInt 0) ''info''
     = Inr ((example_obs, - (1 / 2), PyInt 0, PyInt 0, ''info''), LandingSkill_init 7)"
  using landing_skill_reward_formula
    [where te = "PyBool False" and tr = "PyInt 0" and obs = example_obs
       and l = "LandingSkill_init (0::nat)" and r = 3 and info = "''info''" and e = "0::nat"
       and e' = "7::nat" and l' = "LandingSkill_init (0::nat)" and obs' = example_obs
       and r' = "- (1 / 2)" and te' = "PyInt 0" and tr' = "PyInt 0" and info' = "''info''"]
    landing_skill_reward_formula
    [where te = "PyBool False" and tr = "PyInt 0" and obs = example_obs
       and l = "LandingSkill_init (7::nat)" and r = 3 and info = "''info''" and e = "7::nat"
       and e' = "0::nat" and l' = "LandingSkill_init (7::nat)" and obs' = example_obs
       and r' = "- (1 / 2)" and te' = "PyInt 0" and tr' = "PyInt 0" and info' = "''info''"]
  by (simp add: example_obs_def LandingSkill_init_def power2_eq_square)

text \<open>
  Claim C7. When the base environment reports a terminated or truncated step,
  \<^verbatim>\<open>StabilizeSkill.skill_reward\<close> returns the reward -100 and empties its history,
  \<^verbatim>\<open>CenterSkill.skill_reward\<close> returns -1000 and empties its history, and
  \<^verbatim>\<open>LandingSkill.skill_reward\<close> returns the reward of the base environment; all three
  return both flags as they came in.
\<close>

theorem terminal_step_rewards:
  assumes "truthy te \<or> truthy tr"
  shows
    "stabilize_skill_reward reset s obs r te tr info =
       Inr ((obs, - 100, te, tr, info),
            s\<lparr>stabilize_history := \<lparr>hist_x = [], hist_y = [], hist_theta = []\<rparr>\<rparr>) \<and>
     center_skill_reward reset c obs r te tr info =
       Inr ((obs, - 1000, te, tr, info),
            c\<lparr>center_history := \<lparr>chist_y = [], chist_theta = []\<rparr>\<rparr>) \<and>
     landing_skill_reward l obs r te tr info = Inr ((obs, r, te, tr, info), l)"
  using assms
  by (auto simp: stabilize_skill_reward_def center_skill_reward_def landing_skill_reward_def
      stabilize_empty_def center_empty_def)

theorem terminal_step_rewards_witness:
  "(truthy (PyBool False) \<or> truthy (PyBool True)) \<and>
   stabilize_skill_reward Suc stabilize_one example_obs (- 3) (PyBool False) (PyBool True) ''info'' =
     Inr ((example_obs, - 100, PyBool False, PyBool True, ''info''),
          stabilize_one\<lparr>stabilize_history := \<lparr>hist_x = [], hist_y = [], hist_theta = []\<rparr>\<rparr>) \<and>
   center_skill_reward Suc center_one example_obs (- 3) (PyBool False) (PyBool True) ''info'' =
     Inr ((example_obs, - 1000, PyBool False, PyBool True, ''info''),
          center_one\<lparr>center_history := \<lparr>chist_y = [], chist_theta = []\<rparr>\<rparr>) \<and>
   landing_skill_reward (LandingSkill_init (0::nat)) example_obs (- 3) (PyBool False) (PyBool True) ''info'' =
     Inr ((example_obs, - 3, PyBool False, PyBool True, ''info''), LandingSkill_init 0)"
proof -
  have h: "truthy (PyBool False) \<or> truthy (PyBool True)"
    by simp
  from h terminal_step_rewards
    [OF h, where reset = Suc and s = stabilize_one and c = center_one and obs = example_obs
       and r = "- 3" and info = "''info''" and l = "LandingSkill_init (0::nat)"]
  show ?thesis
    by simp
qed

text \<open>
  Claim C8. The history lists of \<^verbatim>\<open>StabilizeSkill\<close> and \<^verbatim>\<open>CenterSkill\<close> have equal
  lengths of at most 300: this holds of a new object and is kept by every call of
  \<^verbatim>\<open>skill_reward\<close> that returns (a call that raises leaves the object as it was).
  When the lists hold 300 entries, so that the next one would be the 301st, a
  non-terminal call returns the reward 10 with \<^verbatim>\<open>terminated = True\<close>, empties the
  history and resets the base environment.
\<close>

theorem history_length_capped:
  "stabilize_inv (StabilizeSkill_init e) \<and> center_inv (CenterSkill_init e) \<and>
   (stabilize_inv s \<and> stabilize_skill_reward reset s obs r te tr info = Inr (res, s') \<longrightarrow>
      stabilize_inv s') \<and>
   (center_inv c \<and> center_skill_reward reset c obs r te tr info = Inr (res', c') \<longrightarrow>
      center_inv c') \<and>
   (stabilize_inv s \<and> \<not> truthy te \<and> \<not> truthy tr \<and> 5 \<le> length obs \<and>
    length (hist_x (stabilize_history s)) = 300 \<longrightarrow>
      stabilize_skill_reward reset s obs r te tr info =
        Inr ((obs, 10, PyBool True, PyInt 0, info),
             s\<lparr>env := reset (env s),
               stabilize_history := \<lparr>hist_x = [], hist_y = [], hist_theta = []\<rparr>\<rparr>)) \<and>
   (center_inv c \<and> \<not> truthy te \<and> \<not> truthy tr \<and> 5 \<le> length obs \<and>
    length (chist_y (center_history c)) = 300 \<longrightarrow>
      center_skill_reward reset c obs r te tr info =
        Inr ((obs, 10, PyBool True, PyInt 0, info),
             c\<lparr>env := reset (env c), center_history := \<lparr>chist_y = [], chist_theta = []\<rparr>\<rparr>))"
proof (intro conjI impI)
  show "stabilize_inv (StabilizeSkill_init e)"
    by (simp add: stabilize_inv_def StabilizeSkill_init_def)
  show "center_inv (CenterSkill_init e)"
    by (simp add: center_inv_def CenterSkill_init_def)
next
  assume "stabilize_inv s \<and> stabilize_skill_reward reset s obs r te tr info = Inr (res, s')"
  then show "stabilize_inv s'"
    by (auto simp: stabilize_inv_def stabilize_skill_reward_def ebind_Inr_iff Let_def
        stabilize_append_def stabilize_empty_def split: if_splits)
next
  assume "center_inv c \<and> center_skill_reward reset c obs r te tr info = Inr (res', c')"
  then show "center_inv c'"
    by (auto simp: center_inv_def center_skill_reward_def ebind_Inr_iff Let_def
        center_append_def center_empty_def split: if_splits)
next
  assume h: "stabilize_inv s \<and> \<not> truthy te \<and> \<not> truthy tr \<and> 5 \<le> length obs \<and>
    length (hist_x (stabilize_history s)) = 300"
  then have ne: "hist_x (stabilize_history s) \<noteq> []" "hist_y (stabilize_history s) \<noteq> []"
      "hist_theta (stabilize_history s) \<noteq> []"
    by (auto simp: stabilize_inv_def)
  from h have a: "\<not> truthy te" "\<not> truthy tr" "5 \<le> length obs"
    by simp_all
  from h show "stabilize_skill_reward reset s obs r te tr info =
        Inr ((obs, 10, PyBool True, PyInt 0, info),
             s\<lparr>env := reset (env s),
               stabilize_history := \<lparr>hist_x = [], hist_y = [], hist_theta = []\<rparr>\<rparr>)"
    by (simp add: stabilize_nonterminal_next [OF a ne] stabilize_empty_def)
next
  assume h: "center_inv c \<and> \<not> truthy te \<and> \<not> truthy tr \<and> 5 \<le> length obs \<and>
    length (chist_y (center_history c)) = 300"
  then have ne: "chist_y (center_history c) \<noteq> []" "chist_theta (center_history c) \<noteq> []"
    by (auto simp: center_inv_def)
  from h have a: "\<not> truthy te" "\<not> truthy tr" "5 \<le> length obs"
    by simp_all
  from h show "center_skill_reward reset c obs r te tr info =
        Inr ((obs, 10, PyBool True, PyInt 0, info),
             c\<lparr>env := reset (env c), center_history := \<lparr>chist_y = [], chist_theta = []\<rparr>\<rparr>)"
    by (simp add: center_nonterminal_next [OF a ne] center_empty_def)
qed

theorem history_length_capped_witness:
  "stabilize_inv stabilize_full \<and> center_inv center_full \<and>
   stabilize_skill_reward Suc stabilize_full example_obs 3 (PyBool False) (PyInt 0) ''info'' =
     Inr ((example_obs, 10, PyBool True, PyInt 0, ''info''),
          stabilize_full\<lparr>env := Suc 0,
            stabilize_history := \<lparr>hist_x = [], hist_y = [], hist_theta = []\<rparr>\<rparr>) \<and>
   center_skill_reward Suc center_full example_obs 3 (PyBool False) (PyInt 0) ''info'' =
     Inr ((example_obs, 10, PyBool True, PyInt 0, ''info''),
          center_full\<lparr>env := Suc 0, center_history := \<lparr>chist_y = [], chist_theta = []\<rparr>\<rparr>) \<and>
   stabilize_inv (stabilize_full\<lparr>env := Suc 0,
            stabilize_history := \<lparr>hist_x = [], hist_y = [], hist_theta = []\<rparr>\<rparr>) \<and>
   center_inv (center_full\<lparr>env := Suc 0, center_history := \<lparr>chist_y = [], chist_theta = []\<rparr>\<rparr>)"
proof -
  have i: "stabilize_inv stabilize_full" "center_inv center_full"
    by (simp_all add: stabilize_inv_def center_inv_def stabilize_full_def center_full_def)
  have l: "length (hist_x (stabilize_history stabilize_full)) = 300"
    "length (chist_y (center_history center_full)) = 300"
    by (simp_all add: stabilize_full_def center_full_def)
  have o: "5 \<le> length example_obs" "\<not> truthy (PyBool False)" "\<not> truthy (PyInt 0)"
    by (simp_all add: example_obs_def)
  note t = history_length_capped
    [where s = stabilize_full and c = center_full and obs = example_obs and r = 3
       and e = "0::nat" and te = "PyBool False" and tr = "PyInt 0" and info = "''info''" and reset = Suc
       and res = "(example_obs, 10, PyBool True, PyInt 0, ''info'')"
       and res' = "(example_obs, 10, PyBool True, PyInt 0, ''info'')"
       and s' = "stabilize_full\<lparr>env := Suc 0,
            stabilize_history := \<lparr>hist_x = [], hist_y = [], hist_theta = []\<rparr>\<rparr>"
       and c' = "center_full\<lparr>env := Suc 0, center_history := \<lparr>chist_y = [], chist_theta = []\<rparr>\<rparr>"]
  have e: "env stabilize_full = 0" "env center_full = 0"
    by (simp_all add: stabilize_full_def center_full_def)
  from t i l o e show ?thesis
    by simp
qed

section \<open>Properties of the selector training loop\<close>

lemma step_outs_append: "step_outs (xs @ ys) = step_outs xs @ step_outs ys"
  by (induction xs rule: step_outs.induct) simp_all

lemma new_events_append: "trace s' = trace s @ evs \<Longrightarrow> new_events s s' = evs"
  by (simp add: new_events_def)

lemma landed_Inr_iff:
  "landed obs = Inr b \<longleftrightarrow>
     (6 < length obs \<and> (if obs ! 6 \<noteq> 0 then b else 7 < length obs \<and> b = (obs ! 7 \<noteq> 0)))"
  by (auto simp: landed_def ebind_Inr_iff getitem_Inr_iff)

lemma landed_total: "8 \<le> length obs \<Longrightarrow> landed obs = Inr (obs ! 6 \<noteq> 0 \<or> obs ! 7 \<noteq> 0)"
  by (auto simp: landed_Inr_iff)

text \<open>The two branches of one pass through the inner loop body.\<close>

lemma skill_iteration_landed:
  assumes "landed (state s) = Inr True" and "env_step lib (vec_env s) 0 = (e', ns, r, te, tr)"
  shows "skill_iteration lib ag s =
           Inr (s\<lparr>vec_env := e', trace := trace s @ [EnvStep 0 (ns, r, te, tr)],
                   state := (if te \<or> tr then state s else ns),
                   reward := reward s + r, next_state := Some ns, termination_v := Some te,
                   truncation := Some tr\<rparr>, te \<or> tr)"
  using assms by (simp add: skill_iteration_def env_step_call_def)

lemma skill_iteration_flying:
  assumes "landed (state s) = Inr False"
    and "getAction lib (policy (agents s ag)) (state s) = (p', a, lp, v)"
    and "env_step lib (vec_env s) a = (e', ns, r, te, tr)"
  shows "skill_iteration lib ag s =
           Inr (s\<lparr>vec_env := e',
                   agents := (agents s)(ag := (agents s ag)\<lparr>policy := p'\<rparr>),
                   trace := trace s @ [GetAction ag, EnvStep a (ns, r, te, tr)],
                   state := (if te \<or> tr then state s else ns),
                   reward := reward s + r, next_state := Some ns, termination_v := Some te,
                   truncation := Some tr\<rparr>, te \<or> tr)"
  using assms by (simp add: skill_iteration_def env_step_call_def getAction_call_def)

lemma learn_calls_append: "learn_calls (xs @ ys) = learn_calls xs @ learn_calls ys"
  by (induction xs rule: learn_calls.induct) simp_all

lemma getAction_calls_append:
  "getAction_calls (xs @ ys) = getAction_calls xs @ getAction_calls ys"
  by (induction xs rule: getAction_calls.induct) simp_all

lemma skill_iteration_Inr_cases:
  assumes "skill_iteration lib ag s = Inr (s', brk)"
  obtains (landed) e' ns r te tr where
      "landed (state s) = Inr True" "env_step lib (vec_env s) 0 = (e', ns, r, te, tr)"
    | (flying) p' a lp v e' ns r te tr where
      "landed (state s) = Inr False"
      "getAction lib (policy (agents s ag)) (state s) = (p', a, lp, v)"
      "env_step lib (vec_env s) a = (e', ns, r, te, tr)"
proof -
  from assms obtain l where l: "landed (state s) = Inr l"
    by (auto simp: skill_iteration_def ebind_Inr_iff)
  show thesis
  proof (cases l)
    case True
    obtain e' ns r te tr where "env_step lib (vec_env s) 0 = (e', ns, r, te, tr)"
      by (cases "env_step lib (vec_env s) 0") auto
    with l True show thesis by (intro landed) simp_all
  next
    case False
    obtain p' a lp v where g: "getAction lib (policy (agents s ag)) (state s) = (p', a, lp, v)"
      by (cases "getAction lib (policy (agents s ag)) (state s)") auto
    obtain e' ns r te tr where "env_step lib (vec_env s) a = (e', ns, r, te, tr)"
      by (cases "env_step lib (vec_env s) a") auto
    with l False g show thesis by (intro flying) simp_all
  qed
qed

lemma skill_iteration_effect:
  assumes "skill_iteration lib ag s = Inr (s', brk)"
  shows "\<exists>evs out. trace s' = trace s @ evs \<and> step_outs evs = [out] \<and>
           brk = ends_episode out \<and> reward s' = reward s + out_reward out \<and>
           learn_calls evs = [] \<and> set (getAction_calls evs) \<subseteq> {ag}"
  using assms
proof (cases rule: skill_iteration_Inr_cases)
  case (landed e' ns r te tr)
  from skill_iteration_landed [OF landed, of ag] assms
  have "trace s' = trace s @ [EnvStep 0 (ns, r, te, tr)]" "brk = (te \<or> tr)"
    "reward s' = reward s + r"
    by auto
  then show ?thesis
    by (intro exI [of _ "[EnvStep 0 (ns, r, te, tr)]"] exI [of _ "(ns, r, te, tr)"])
      (simp add: ends_episode_def out_reward_def)
next
  case (flying p' a lp v e' ns r te tr)
  from skill_iteration_flying [OF flying] assms
  have "trace s' = trace s @ [GetAction ag, EnvStep a (ns, r, te, tr)]" "brk = (te \<or> tr)"
    "reward s' = reward s + r"
    by auto
  then show ?thesis
    by (intro exI [of _ "[GetAction ag, EnvStep a (ns, r, te, tr)]"] exI [of _ "(ns, r, te, tr)"])
      (simp add: ends_episode_def out_reward_def)
qed

lemma skill_iteration_frame:
  assumes "skill_iteration lib ag s = Inr (s', brk)"
  shows "buffers s' = buffers s \<and> score s' = score s \<and> total_steps s' = total_steps s \<and>
         termination_v s' \<noteq> None \<and> next_state s' \<noteq> None \<and>
         (\<forall>k. k \<noteq> ag \<longrightarrow> agents s' k = agents s k) \<and>
         scores (agents s' ag) = scores (agents s ag) \<and>
         steps (agents s' ag) = steps (agents s ag) \<and>
         ((\<forall>p obs. fst (getAction lib p obs) = p) \<longrightarrow> agents s' = agents s)"
  using assms
proof (cases rule: skill_iteration_Inr_cases)
  case (landed e' ns r te tr)
  from skill_iteration_landed [OF landed, of ag] assms show ?thesis
    by auto
next
  case (flying p' a lp v e' ns r te tr)
  have "(\<forall>p obs. fst (getAction lib p obs) = p) \<longrightarrow> p' = policy (agents s ag)"
    using flying(2) by (metis fst_conv)
  with skill_iteration_flying [OF flying] assms show ?thesis
    by auto
qed

lemma skill_loop_Suc_Inr:
  assumes "skill_loop lib ag (Suc n) s = Inr s'"
  obtains s1 brk where "skill_iteration lib ag s = Inr (s1, brk)"
    and "if brk then s' = s1 else skill_loop lib ag n s1 = Inr s'"
  using assms by (auto simp: ebind_Inr_iff split: if_splits)

lemma skill_loop_effect:
  "skill_loop lib ag n s = Inr s' \<Longrightarrow>
     \<exists>evs. trace s' = trace s @ evs \<and> length (step_outs evs) \<le> n \<and>
       (0 < n \<longrightarrow> step_outs evs \<noteq> []) \<and>
       (\<forall>out \<in> set (butlast (step_outs evs)). \<not> ends_episode out) \<and>
       (length (step_outs evs) < n \<longrightarrow> ends_episode (last (step_outs evs))) \<and>
       reward s' = reward s + sum_list (map out_reward (step_outs evs)) \<and>
       learn_calls evs = [] \<and> set (getAction_calls evs) \<subseteq> {ag}"
proof (induction n arbitrary: s)
  case 0
  then show ?case by simp
next
  case (Suc n)
  from Suc.prems obtain s1 brk where it: "skill_iteration lib ag s = Inr (s1, brk)"
    and rest: "if brk then s' = s1 else skill_loop lib ag n s1 = Inr s'"
    by (rule skill_loop_Suc_Inr)
  from skill_iteration_effect [OF it] obtain evs1 out where
    e1: "trace s1 = trace s @ evs1" "step_outs evs1 = [out]" "brk = ends_episode out"
      "reward s1 = reward s + out_reward out" "learn_calls evs1 = []"
      "set (getAction_calls evs1) \<subseteq> {ag}"
    by blast
  show ?case
  proof (cases brk)
    case True
    with rest have "s' = s1" by simp
    with e1 True show ?thesis
      by (intro exI [of _ evs1]) simp
  next
    case False
    with rest have "skill_loop lib ag n s1 = Inr s'" by simp
    from Suc.IH [OF this] obtain evs2 where
      e2: "trace s' = trace s1 @ evs2" "length (step_outs evs2) \<le> n"
        "0 < n \<longrightarrow> step_outs evs2 \<noteq> []"
        "\<forall>out \<in> set (butlast (step_outs evs2)). \<not> ends_episode out"
        "length (step_outs evs2) < n \<longrightarrow> ends_episode (last (step_outs evs2))"
        "reward s' = reward s1 + sum_list (map out_reward (step_outs evs2))"
        "learn_calls evs2 = []" "set (getAction_calls evs2) \<subseteq> {ag}"
      by blast
    have outs: "step_outs (evs1 @ evs2) = out # step_outs evs2"
      by (simp add: step_outs_append e1)
    have a: "trace s' = trace s @ evs1 @ evs2"
      using e1 e2 by simp
    have b: "length (step_outs (evs1 @ evs2)) \<le> Suc n"
      using e2 outs by simp
    have c: "\<forall>x \<in> set (butlast (step_outs (evs1 @ evs2))). \<not> ends_episode x"
      using e2(4) e1(3) False by (auto simp: outs)
    have d: "length (step_outs (evs1 @ evs2)) < Suc n \<longrightarrow>
        ends_episode (last (step_outs (evs1 @ evs2)))"
      using e2(3,5) by (auto simp: outs)
    have e: "reward s' = reward s + sum_list (map out_reward (step_outs (evs1 @ evs2)))"
      using e1(4) e2(6) by (simp add: outs)
    have f: "learn_calls (evs1 @ evs2) = []" "set (getAction_calls (evs1 @ evs2)) \<subseteq> {ag}"
      using e1(5,6) e2(7,8) by (simp_all add: learn_calls_append getAction_calls_append)
    from a b c d e f outs show ?thesis
      by (intro exI [of _ "evs1 @ evs2"]) simp
  qed
qed

lemma skill_loop_frame:
  "skill_loop lib ag n s = Inr s' \<Longrightarrow>
     buffers s' = buffers s \<and> score s' = score s \<and> total_steps s' = total_steps s \<and>
     (0 < n \<longrightarrow> termination_v s' \<noteq> None \<and> next_state s' \<noteq> None) \<and>
     (\<forall>k. k \<noteq> ag \<longrightarrow> agents s' k = agents s k) \<and>
     scores (agents s' ag) = scores (agents s ag) \<and>
     steps (agents s' ag) = steps (agents s ag) \<and>
     ((\<forall>p obs. fst (getAction lib p obs) = p) \<longrightarrow> agents s' = agents s)"
proof (induction n arbitrary: s)
  case 0
  then show ?case by simp
next
  case (Suc n)
  from Suc.prems obtain s1 brk where it: "skill_iteration lib ag s = Inr (s1, brk)"
    and rest: "if brk then s' = s1 else skill_loop lib ag n s1 = Inr s'"
    by (rule skill_loop_Suc_Inr)
  note f1 = skill_iteration_frame [OF it]
  show ?case
  proof (cases brk)
    case True
    with rest have "s' = s1" by simp
    with f1 show ?thesis by simp
  next
    case False
    with rest have l: "skill_loop lib ag n s1 = Inr s'" by simp
    note f2 = Suc.IH [OF l]
    have "termination_v s' \<noteq> None \<and> next_state s' \<noteq> None"
    proof (cases n)
      case 0
      with l f1 show ?thesis by simp
    next
      case (Suc m)
      with f2 show ?thesis by simp
    qed
    with f1 f2 show ?thesis by simp
  qed
qed

lemma trained_skills_Some:
  assumes "trained_skills act = Some entry"
  shows "skill_duration entry = 40"
    and "agent entry \<in> {stabilize_agent, center_agent, landing_agent}"
    and "act \<in> {0, 1, 2}"
  using assms by (auto simp: trained_skills_def split: if_splits)

lemma read_var_Inr_iff: "read_var v = Inr x \<longleftrightarrow> v = Some x"
  by (cases v) (simp_all add: read_var_def)

lemma lookup_Inr_iff: "lookup d k = Inr v \<longleftrightarrow> d k = Some v"
  by (cases "d k") (simp_all add: lookup_def)

lemma selector_step_Inr:
  assumes "selector_step lib ag s = Inr s'"
  obtains p' act lp v entry s2 t where
    "getAction lib (policy (agents s ag)) (state s) = (p', act, lp, v)"
    "trained_skills act = Some entry"
    "skill_loop lib (agent entry) (skill_duration entry)
       (s\<lparr>agents := (agents s)(ag := (agents s ag)\<lparr>policy := p'\<rparr>),
          trace := trace s @ [GetAction ag], reward := 0\<rparr>) = Inr s2"
    "termination_v s2 = Some t"
    "s' = s2\<lparr>score := score s2 + reward s2,
             buffers :=
               \<lparr>states = states (buffers s2) @ [state s2],
                actions = actions (buffers s2) @ [act],
                log_probs = log_probs (buffers s2) @ [lp],
                rewards = rewards (buffers s2) @ [reward s2],
                terminations = terminations (buffers s2) @ [t],
                values_list = values_list (buffers s2) @ [v]\<rparr>\<rparr>"
proof -
  obtain p' act lp v where g: "getAction lib (policy (agents s ag)) (state s) = (p', act, lp, v)"
    by (cases "getAction lib (policy (agents s ag)) (state s)") auto
  from assms g show thesis
    by (auto simp: selector_step_def getAction_call_def ebind_Inr_iff lookup_Inr_iff
        read_var_Inr_iff Let_def intro: that)
qed

text \<open>What one selector step does to the trace, the reward and the buffers.\<close>

lemma selector_step_effect:
  assumes "selector_step lib ag s = Inr s'"
  shows "\<exists>evs. trace s' = trace s @ GetAction ag # evs \<and>
           1 \<le> length (step_outs evs) \<and> length (step_outs evs) \<le> 40 \<and>
           (\<forall>out \<in> set (butlast (step_outs evs)). \<not> ends_episode out) \<and>
           (length (step_outs evs) < 40 \<longrightarrow> ends_episode (last (step_outs evs))) \<and>
           reward s' = sum_list (map out_reward (step_outs evs)) \<and>
           score s' = score s + reward s' \<and>
           rewards (buffers s') = rewards (buffers s) @ [reward s'] \<and>
           learn_calls evs = [] \<and>
           set (getAction_calls evs) \<subseteq> {stabilize_agent, center_agent, landing_agent}"
proof -
  from assms obtain p' act lp v entry s2 t where
    g: "getAction lib (policy (agents s ag)) (state s) = (p', act, lp, v)"
    and e: "trained_skills act = Some entry"
    and l: "skill_loop lib (agent entry) (skill_duration entry)
       (s\<lparr>agents := (agents s)(ag := (agents s ag)\<lparr>policy := p'\<rparr>),
          trace := trace s @ [GetAction ag], reward := 0\<rparr>) = Inr s2"
    and s': "s' = s2\<lparr>score := score s2 + reward s2,
             buffers :=
               \<lparr>states = states (buffers s2) @ [state s2],
                actions = actions (buffers s2) @ [act],
                log_probs = log_probs (buffers s2) @ [lp],
                rewards = rewards (buffers s2) @ [reward s2],
                terminations = terminations (buffers s2) @ [t],
                values_list = values_list (buffers s2) @ [v]\<rparr>\<rparr>"
    by (rule selector_step_Inr)
  note d = trained_skills_Some [OF e]
  from skill_loop_effect [OF l] obtain evs where
    f: "trace s2 = trace s @ GetAction ag # evs" "length (step_outs evs) \<le> skill_duration entry"
      "0 < skill_duration entry \<longrightarrow> step_outs evs \<noteq> []"
      "\<forall>out \<in> set (butlast (step_outs evs)). \<not> ends_episode out"
      "length (step_outs evs) < skill_duration entry \<longrightarrow> ends_episode (last (step_outs evs))"
      "reward s2 = sum_list (map out_reward (step_outs evs))"
      "learn_calls evs = []" "set (getAction_calls evs) \<subseteq> {agent entry}"
    by auto
  from skill_loop_frame [OF l] have fr: "buffers s2 = buffers s" "score s2 = score s"
    by simp_all
  from f(3) d(1) have "1 \<le> length (step_outs evs)"
    by (cases "step_outs evs") simp_all
  moreover from f(8) d(2) have
    "set (getAction_calls evs) \<subseteq> {stabilize_agent, center_agent, landing_agent}"
    by auto
  ultimately show ?thesis
    using f fr d(1) s' by (intro exI [of _ evs]) simp
qed

lemma skill_loop_numeral:
  "skill_loop lib ag (numeral k) s =
     ebind (skill_iteration lib ag s) (\<lambda>(s', brk).
       if brk then Inr s' else skill_loop lib ag (pred_numeral k) s')"
  by (simp add: numeral_eq_Suc)

lemmas run_simps =
  selector_step_def getAction_call_def trained_skills_def lookup_def read_var_def
  skill_loop_numeral skill_iteration_def landed_def getitem_def env_step_call_def

text \<open>Runs of the example library.\<close>

lemma example_step_ending:
  "selector_step (example_lib 1) (Selector 0) example_state = Inr ended_state"
  by (simp add: run_simps example_lib_def example_state_def ended_state_def empty_rollout_def
      fun_upd_twist)

text \<open>
  Claim C1. In every selector step the reward that is recorded (appended to
  \<^verbatim>\<open>rewards\<close> and added to \<^verbatim>\<open>score\<close>) is the sum of the rewards that \<^verbatim>\<open>env.step\<close>
  returned in the inner steps of this selector step: the accumulator starts at 0 and
  every step's reward is added to it.
\<close>

theorem selector_reward_is_sum_of_step_rewards:
  assumes "selector_step lib ag s = Inr s'"
  shows "reward s' = sum_list (map out_reward (step_outs (new_events s s'))) \<and>
         rewards (buffers s') = rewards (buffers s) @ [reward s'] \<and>
         score s' = score s + reward s'"
proof -
  from selector_step_effect [OF assms] obtain evs where
    e: "trace s' = trace s @ GetAction ag # evs"
      "reward s' = sum_list (map out_reward (step_outs evs))"
      "score s' = score s + reward s'"
      "rewards (buffers s') = rewards (buffers s) @ [reward s']"
    by blast
  from e(1) have "step_outs (new_events s s') = step_outs evs"
    by (simp add: new_events_def)
  with e show ?thesis by simp
qed

theorem selector_reward_is_sum_of_step_rewards_witness:
  "\<exists>s'. selector_step (example_lib 3) (Selector 0) example_state = Inr s' \<and>
     map out_reward (step_outs (new_events example_state s')) = [1, 2, 3] \<and>
     reward s' = 6 \<and> rewards (buffers s') = [6] \<and> score s' = 6"
proof -
  have "map_sum id trace (selector_step (example_lib 3) (Selector 0) example_state) =
      Inr [GetAction (Selector 0),
           GetAction stabilize_agent, EnvStep 0 ([0, 0, 0, 0, 0, 0, 0, 0], 1, False, False),
           GetAction stabilize_agent, EnvStep 1 ([1, 0, 0, 0, 0, 0, 0, 0], 2, False, False),
           GetAction stabilize_agent, EnvStep 2 ([2, 0, 0, 0, 0, 0, 0, 0], 3, True, False)]"
    by (simp add: run_simps example_lib_def example_state_def empty_rollout_def)
  then obtain s' where h: "selector_step (example_lib 3) (Selector 0) example_state = Inr s'"
    and t: "trace s' = [GetAction (Selector 0),
           GetAction stabilize_agent, EnvStep 0 ([0, 0, 0, 0, 0, 0, 0, 0], 1, False, False),
           GetAction stabilize_agent, EnvStep 1 ([1, 0, 0, 0, 0, 0, 0, 0], 2, False, False),
           GetAction stabilize_agent, EnvStep 2 ([2, 0, 0, 0, 0, 0, 0, 0], 3, True, False)]"
    by (cases "selector_step (example_lib 3) (Selector 0) example_state") auto
  from t have o: "map out_reward (step_outs (new_events example_state s')) = [1, 2, 3]"
    by (simp add: new_events_def example_state_def out_reward_def)
  from selector_reward_is_sum_of_step_rewards [OF h] o h show ?thesis
    by (simp add: example_state_def empty_rollout_def)
qed

text \<open>
  Claim C2 says that the inner loop steps the environment exactly 40 times for every
  selector action. The loop leaves at the first step that reports termination or
  truncation: in an environment whose first step terminates, one selector step makes
  one environment step.
\<close>

theorem skill_stops_at_first_ending_step_counterexample:
  "selector_step (example_lib 1) (Selector 0) example_state = Inr ended_state \<and>
   length (step_outs (new_events example_state ended_state)) = 1 \<and>
   length (step_outs (new_events example_state ended_state)) \<noteq> 40"
  using example_step_ending
  by (simp add: new_events_def example_state_def ended_state_def)

text \<open>
  Claim C2, amended. For every selector action the inner loop steps the environment at
  least once and at most \<^verbatim>\<open>skill_duration = 40\<close> times; no step before the last one
  reports termination or truncation, and when fewer than 40 steps were made the last one
  did. So the skill runs for exactly 40 steps when no step ends the episode.
\<close>

theorem skill_stops_at_first_ending_step:
  assumes "selector_step lib ag s = Inr s'"
  shows "1 \<le> length (step_outs (new_events s s')) \<and>
         length (step_outs (new_events s s')) \<le> 40 \<and>
         (\<forall>out \<in> set (butlast (step_outs (new_events s s'))). \<not> ends_episode out) \<and>
         (length (step_outs (new_events s s')) < 40 \<longrightarrow>
            ends_episode (last (step_outs (new_events s s')))) \<and>
         ((\<forall>out \<in> set (step_outs (new_events s s')). \<not> ends_episode out) \<longrightarrow>
            length (step_outs (new_events s s')) = 40)"
proof -
  from selector_step_effect [OF assms] obtain evs where
    e: "trace s' = trace s @ GetAction ag # evs"
      "1 \<le> length (step_outs evs)" "length (step_outs evs) \<le> 40"
      "\<forall>out \<in> set (butlast (step_outs evs)). \<not> ends_episode out"
      "length (step_outs evs) < 40 \<longrightarrow> ends_episode (last (step_outs evs))"
    by blast
  from e(1) have n: "step_outs (new_events s s') = step_outs evs"
    by (simp add: new_events_def)
  from e(2) have ne: "step_outs evs \<noteq> []"
    by auto
  have "(\<forall>out \<in> set (step_outs evs). \<not> ends_episode out) \<longrightarrow> length (step_outs evs) = 40"
  proof
    assume a: "\<forall>out \<in> set (step_outs evs). \<not> ends_episode out"
    from ne have "last (step_outs evs) \<in> set (step_outs evs)"
      by simp
    with a have "\<not> ends_episode (last (step_outs evs))"
      by blast
    with e(3,5) show "length (step_outs evs) = 40"
      by auto
  qed
  with e show ?thesis
    by (simp add: n)
qed

theorem skill_stops_at_first_ending_step_witness:
  "\<exists>s'. selector_step (example_lib 3) (Selector 0) example_state = Inr s' \<and>
     step_outs (new_events example_state s') =
       [([0, 0, 0, 0, 0, 0, 0, 0], 1, False, False), ([1, 0, 0, 0, 0, 0, 0, 0], 2, False, False),
        ([2, 0, 0, 0, 0, 0, 0, 0], 3, True, False)] \<and>
     ends_episode (last (step_outs (new_events example_state s')))"
proof -
  have "map_sum id trace (selector_step (example_lib 3) (Selector 0) example_state) =
      Inr [GetAction (Selector 0),
           GetAction stabilize_agent, EnvStep 0 ([0, 0, 0, 0, 0, 0, 0, 0], 1, False, False),
           GetAction stabilize_agent, EnvStep 1 ([1, 0, 0, 0, 0, 0, 0, 0], 2, False, False),
           GetAction stabilize_agent, EnvStep 2 ([2, 0, 0, 0, 0, 0, 0, 0], 3, True, False)]"
    by (simp add: run_simps example_lib_def example_state_def empty_rollout_def)
  then obtain s' where h: "selector_step (example_lib 3) (Selector 0) example_state = Inr s'"
    and t: "trace s' = [GetAction (Selector 0),
           GetAction stabilize_agent, EnvStep 0 ([0, 0, 0, 0, 0, 0, 0, 0], 1, False, False),
           GetAction stabilize_agent, EnvStep 1 ([1, 0, 0, 0, 0, 0, 0, 0], 2, False, False),
           GetAction stabilize_agent, EnvStep 2 ([2, 0, 0, 0, 0, 0, 0, 0], 3, True, False)]"
    by (cases "selector_step (example_lib 3) (Selector 0) example_state") auto
  from t have o: "step_outs (new_events example_state s') =
       [([0, 0, 0, 0, 0, 0, 0, 0], 1, False, False), ([1, 0, 0, 0, 0, 0, 0, 0], 2, False, False),
        ([2, 0, 0, 0, 0, 0, 0, 0], 3, True, False)]"
    by (simp add: new_events_def example_state_def)
  from skill_stops_at_first_ending_step [OF h] o h show ?thesis
    by simp
qed

text \<open>
  Claim C9. In a pass through the inner loop body (for an observation with its eight
  components): when one of the leg-contact components 6 and 7 of the current state is
  non-zero, the environment is stepped with the fixed action 0 and no agent is asked
  (the only library call of the pass is that \<^verbatim>\<open>env.step\<close>, and no agent object changes);
  otherwise the chosen skill agent's \<^verbatim>\<open>getAction\<close> is called on the current state and
  the environment is stepped with the action it returns.
\<close>

theorem landed_steps_with_fixed_action:
  assumes "8 \<le> length (state s)"
  shows
    "(state s ! 6 \<noteq> 0 \<or> state s ! 7 \<noteq> 0 \<longrightarrow>
        (\<exists>s' brk out. skill_iteration lib ag s = Inr (s', brk) \<and>
           (vec_env s', out) = env_step lib (vec_env s) 0 \<and>
           new_events s s' = [EnvStep 0 out] \<and> agents s' = agents s)) \<and>
     (state s ! 6 = 0 \<and> state s ! 7 = 0 \<longrightarrow>
        (\<exists>s' brk p' a lp v out. skill_iteration lib ag s = Inr (s', brk) \<and>
           getAction lib (policy (agents s ag)) (state s) = (p', a, lp, v) \<and>
           (vec_env s', out) = env_step lib (vec_env s) a \<and>
           new_events s s' = [GetAction ag, EnvStep a out]))"
proof (intro conjI impI)
  assume "state s ! 6 \<noteq> 0 \<or> state s ! 7 \<noteq> 0"
  with landed_total [OF assms] have l: "landed (state s) = Inr True"
    by simp
  obtain e' ns r te tr where st: "env_step lib (vec_env s) 0 = (e', ns, r, te, tr)"
    by (cases "env_step lib (vec_env s) 0") auto
  note it = skill_iteration_landed [OF l st, of ag]
  show "\<exists>s' brk out. skill_iteration lib ag s = Inr (s', brk) \<and>
           (vec_env s', out) = env_step lib (vec_env s) 0 \<and>
           new_events s s' = [EnvStep 0 out] \<and> agents s' = agents s"
    by (intro exI conjI, rule it) (simp_all add: st new_events_def)
next
  assume "state s ! 6 = 0 \<and> state s ! 7 = 0"
  with landed_total [OF assms] have l: "landed (state s) = Inr False"
    by simp
  obtain p' a lp v where g: "getAction lib (policy (agents s ag)) (state s) = (p', a, lp, v)"
    by (cases "getAction lib (policy (agents s ag)) (state s)") auto
  obtain e' ns r te tr where st: "env_step lib (vec_env s) a = (e', ns, r, te, tr)"
    by (cases "env_step lib (vec_env s) a") auto
  note it = skill_iteration_flying [OF l g st]
  show "\<exists>s' brk p' a lp v out. skill_iteration lib ag s = Inr (s', brk) \<and>
           getAction lib (policy (agents s ag)) (state s) = (p', a, lp, v) \<and>
           (vec_env s', out) = env_step lib (vec_env s) a \<and>
           new_events s s' = [GetAction ag, EnvStep a out]"
    by (intro exI conjI, rule it, rule g) (simp_all add: st new_events_def)
qed

theorem landed_steps_with_fixed_action_witness:
  "(\<exists>s' brk. skill_iteration (example_lib 0) center_agent landed_state = Inr (s', brk) \<and>
      new_events landed_state s' = [EnvStep 0 ([0, 0, 0, 0, 0, 0, 0, 0], 1, False, False)] \<and>
      agents s' = agents landed_state) \<and>
   (\<exists>s' brk. skill_iteration (example_lib 0) center_agent
        (example_state\<lparr>agents := (agents example_state)(center_agent :=
           \<lparr>policy = 2, scores = [], steps = [0]\<rparr>)\<rparr>) = Inr (s', brk) \<and>
      new_events example_state s' =
        [GetAction center_agent, EnvStep 2 ([2, 0, 0, 0, 0, 0, 0, 0], 1, False, False)])"
proof -
  have a: "8 \<le> length (state landed_state)" "state landed_state ! 6 \<noteq> 0"
    by (simp_all add: landed_state_def example_state_def)
  have b: "8 \<le> length (state (example_state\<lparr>agents := (agents example_state)(center_agent :=
           \<lparr>policy = 2, scores = [], steps = [0]\<rparr>)\<rparr>))"
    "state (example_state\<lparr>agents := (agents example_state)(center_agent :=
           \<lparr>policy = 2, scores = [], steps = [0]\<rparr>)\<rparr>) ! 6 = 0"
    "state (example_state\<lparr>agents := (agents example_state)(center_agent :=
           \<lparr>policy = 2, scores = [], steps = [0]\<rparr>)\<rparr>) ! 7 = 0"
    by (simp_all add: example_state_def eval_nat_numeral)
  from landed_steps_with_fixed_action [OF a(1), of "example_lib 0" center_agent] a(2)
  have 1: "\<exists>s' brk. skill_iteration (example_lib 0) center_agent landed_state = Inr (s', brk) \<and>
      new_events landed_state s' = [EnvStep 0 ([0, 0, 0, 0, 0, 0, 0, 0], 1, False, False)] \<and>
      agents s' = agents landed_state"
    by (auto simp: example_lib_def landed_state_def example_state_def)
  from landed_steps_with_fixed_action [OF b(1), of "example_lib 0" center_agent] b(2,3)
  have 2: "\<exists>s' brk. skill_iteration (example_lib 0) center_agent
        (example_state\<lparr>agents := (agents example_state)(center_agent :=
           \<lparr>policy = 2, scores = [], steps = [0]\<rparr>)\<rparr>) = Inr (s', brk) \<and>
      new_events example_state s' =
        [GetAction center_agent, EnvStep 2 ([2, 0, 0, 0, 0, 0, 0, 0], 1, False, False)]"
    by (auto simp: example_lib_def example_state_def new_events_def)
  from 1 2 show ?thesis ..
qed

lemma selector_step_frame:
  assumes "selector_step lib ag s = Inr s'"
  shows "length (states (buffers s')) = Suc (length (states (buffers s))) \<and>
         length (actions (buffers s')) = Suc (length (actions (buffers s))) \<and>
         length (log_probs (buffers s')) = Suc (length (log_probs (buffers s))) \<and>
         length (rewards (buffers s')) = Suc (length (rewards (buffers s))) \<and>
         length (terminations (buffers s')) = Suc (length (terminations (buffers s))) \<and>
         length (values_list (buffers s')) = Suc (length (values_list (buffers s))) \<and>
         next_state s' \<noteq> None \<and> total_steps s' = total_steps s \<and>
         (\<forall>k. scores (agents s' k) = scores (agents s k) \<and>
              steps (agents s' k) = steps (agents s k)) \<and>
         (\<forall>k. k \<noteq> ag \<and> k \<notin> skill_agents \<longrightarrow> agents s' k = agents s k) \<and>
         ((\<forall>p obs. fst (getAction lib p obs) = p) \<longrightarrow> agents s' = agents s)"
proof -
  from assms obtain p' act lp v entry s2 t where
    g: "getAction lib (policy (agents s ag)) (state s) = (p', act, lp, v)"
    and e: "trained_skills act = Some entry"
    and l: "skill_loop lib (agent entry) (skill_duration entry)
       (s\<lparr>agents := (agents s)(ag := (agents s ag)\<lparr>policy := p'\<rparr>),
          trace := trace s @ [GetAction ag], reward := 0\<rparr>) = Inr s2"
    and s': "s' = s2\<lparr>score := score s2 + reward s2,
             buffers :=
               \<lparr>states = states (buffers s2) @ [state s2],
                actions = actions (buffers s2) @ [act],
                log_probs = log_probs (buffers s2) @ [lp],
                rewards = rewards (buffers s2) @ [reward s2],
                terminations = terminations (buffers s2) @ [t],
                values_list = values_list (buffers s2) @ [v]\<rparr>\<rparr>"
    by (rule selector_step_Inr)
  note d = trained_skills_Some [OF e]
  define s1 where "s1 = s\<lparr>agents := (agents s)(ag := (agents s ag)\<lparr>policy := p'\<rparr>),
          trace := trace s @ [GetAction ag], reward := 0\<rparr>"
  from l have l1: "skill_loop lib (agent entry) (skill_duration entry) s1 = Inr s2"
    by (simp add: s1_def)
  note f = skill_loop_frame [OF l1]
  have b: "buffers s2 = buffers s" "total_steps s2 = total_steps s" "next_state s2 \<noteq> None"
    using f d(1) by (simp_all add: s1_def)
  have sc: "scores (agents s2 k) = scores (agents s k) \<and> steps (agents s2 k) = steps (agents s k)"
    for k
  proof (cases "k = agent entry")
    case True
    with f have "scores (agents s2 k) = scores (agents s1 k)" "steps (agents s2 k) = steps (agents s1 k)"
      by simp_all
    then show ?thesis by (simp add: s1_def)
  next
    case False
    with f have "agents s2 k = agents s1 k" by simp
    then show ?thesis by (simp add: s1_def)
  qed
  have fr: "agents s2 k = agents s k" if "k \<noteq> ag" "k \<notin> skill_agents" for k
  proof -
    from that d(2) have "k \<noteq> agent entry" by (auto simp: skill_agents_def)
    with f have "agents s2 k = agents s1 k" by simp
    with that show ?thesis by (simp add: s1_def)
  qed
  have pure: "agents s2 = agents s" if p: "\<forall>p obs. fst (getAction lib p obs) = p"
  proof -
    from p g have "p' = policy (agents s ag)" by (metis fst_conv)
    then have "agents s1 = agents s" by (simp add: s1_def)
    moreover from f p have "agents s2 = agents s1" by simp
    ultimately show ?thesis by simp
  qed
  from b sc fr pure show ?thesis
    by (simp add: s')
qed

lemma selector_loop_Suc_Inr:
  assumes "selector_loop lib ag (Suc n) s = Inr s'"
  obtains s1 where "selector_step lib ag s = Inr s1" "selector_loop lib ag n s1 = Inr s'"
  using assms by (auto simp: ebind_Inr_iff)

lemma selector_loop_frame:
  "selector_loop lib ag n s = Inr s' \<Longrightarrow>
     length (states (buffers s')) = length (states (buffers s)) + n \<and>
     length (actions (buffers s')) = length (actions (buffers s)) + n \<and>
     length (log_probs (buffers s')) = length (log_probs (buffers s)) + n \<and>
     length (rewards (buffers s')) = length (rewards (buffers s)) + n \<and>
     length (terminations (buffers s')) = length (terminations (buffers s)) + n \<and>
     length (values_list (buffers s')) = length (values_list (buffers s)) + n \<and>
     (0 < n \<longrightarrow> next_state s' \<noteq> None) \<and> total_steps s' = total_steps s \<and>
     (\<forall>k. scores (agents s' k) = scores (agents s k) \<and>
          steps (agents s' k) = steps (agents s k)) \<and>
     (\<forall>k. k \<noteq> ag \<and> k \<notin> skill_agents \<longrightarrow> agents s' k = agents s k) \<and>
     ((\<forall>p obs. fst (getAction lib p obs) = p) \<longrightarrow> agents s' = agents s)"
proof (induction n arbitrary: s)
  case 0
  then show ?case by simp
next
  case (Suc n)
  from Suc.prems obtain s1 where st: "selector_step lib ag s = Inr s1"
    and l: "selector_loop lib ag n s1 = Inr s'"
    by (rule selector_loop_Suc_Inr)
  note f1 = selector_step_frame [OF st]
  note f2 = Suc.IH [OF l]
  have "next_state s' \<noteq> None"
  proof (cases n)
    case 0
    with l f1 show ?thesis by simp
  next
    case (Suc m)
    with f2 show ?thesis by simp
  qed
  with f1 f2 show ?case by simp
qed

lemma count_list_append': "count_list (xs @ ys) x = count_list xs x + count_list ys x"
  by (induction xs) simp_all

lemma count_list_not_in_set: "x \<notin> set xs \<Longrightarrow> count_list xs x = 0"
  by (induction xs) auto

lemma selector_loop_effect:
  "selector_loop lib ag n s = Inr s' \<Longrightarrow>
     \<exists>evs. trace s' = trace s @ evs \<and> learn_calls evs = [] \<and>
       (ag \<notin> skill_agents \<longrightarrow> count_list (getAction_calls evs) ag = n)"
proof (induction n arbitrary: s)
  case 0
  then show ?case by simp
next
  case (Suc n)
  from Suc.prems obtain s1 where st: "selector_step lib ag s = Inr s1"
    and l: "selector_loop lib ag n s1 = Inr s'"
    by (rule selector_loop_Suc_Inr)
  from selector_step_effect [OF st] obtain evs1 where
    e1: "trace s1 = trace s @ GetAction ag # evs1" "learn_calls evs1 = []"
      "set (getAction_calls evs1) \<subseteq> {stabilize_agent, center_agent, landing_agent}"
    by blast
  from Suc.IH [OF l] obtain evs2 where
    e2: "trace s' = trace s1 @ evs2" "learn_calls evs2 = []"
      "ag \<notin> skill_agents \<longrightarrow> count_list (getAction_calls evs2) ag = n"
    by blast
  have "ag \<notin> skill_agents \<longrightarrow> count_list (getAction_calls (GetAction ag # evs1 @ evs2)) ag = Suc n"
  proof
    assume a: "ag \<notin> skill_agents"
    with e1(3) have "ag \<notin> set (getAction_calls evs1)"
      by (auto simp: skill_agents_def)
    then have "count_list (getAction_calls evs1) ag = 0"
      by (rule count_list_not_in_set)
    with a e2(3) show "count_list (getAction_calls (GetAction ag # evs1 @ evs2)) ag = Suc n"
      by (simp add: getAction_calls_append count_list_append')
  qed
  with e1 e2 show ?case
    by (intro exI [of _ "GetAction ag # evs1 @ evs2"]) (simp add: learn_calls_append)
qed

lemma add_to_last_Inr_iff:
  "add_to_last n xs = Inr ys \<longleftrightarrow> xs \<noteq> [] \<and> ys = butlast xs @ [last xs + n]"
  by (auto simp: add_to_last_def)

lemma train_agent_Inr:
  assumes "train_agent lib ag s = Inr s'"
  obtains e' obs s1 ns where
    "env_reset lib (vec_env s) = (e', obs)"
    "selector_loop lib ag 500
       (s\<lparr>vec_env := e', trace := trace s @ [EnvReset], state := obs, score := 0,
          buffers := empty_rollout\<rparr>) = Inr s1"
    "next_state s1 = Some ns"
    "steps (agents s1 ag) \<noteq> []"
    "s' = s1\<lparr>agents := (agents s1)(ag := (agents s1 ag)
               \<lparr>scores := scores (agents s1 ag) @ [score s1],
                policy := learn lib (policy (agents s1 ag)) (buffers s1) ns,
                steps := butlast (steps (agents s1 ag)) @ [last (steps (agents s1 ag)) + 500]\<rparr>),
             trace := trace s1 @ [Learn ag (buffers s1) ns],
             total_steps := total_steps s1 + 500\<rparr>"
proof -
  obtain e' obs where r: "env_reset lib (vec_env s) = (e', obs)"
    by (cases "env_reset lib (vec_env s)") auto
  from assms r show thesis
    by (auto simp: train_agent_def learn_call_def ebind_Inr_iff read_var_Inr_iff
        add_to_last_Inr_iff Let_def intro!: that)
qed

lemma train_agent_effect:
  assumes "train_agent lib ag s = Inr s'"
  shows "\<exists>evs ro ns. trace s' = trace s @ EnvReset # evs @ [Learn ag ro ns] \<and>
           learn_calls evs = [] \<and>
           (ag \<notin> skill_agents \<longrightarrow> count_list (getAction_calls evs) ag = 500) \<and>
           length (states ro) = 500 \<and> length (actions ro) = 500 \<and>
           length (log_probs ro) = 500 \<and> length (rewards ro) = 500 \<and>
           length (terminations ro) = 500 \<and> length (values_list ro) = 500 \<and>
           total_steps s' = total_steps s + 500 \<and>
           (\<forall>k. k \<noteq> ag \<longrightarrow> scores (agents s' k) = scores (agents s k) \<and>
                            steps (agents s' k) = steps (agents s k)) \<and>
           (\<forall>k. k \<noteq> ag \<and> k \<notin> skill_agents \<longrightarrow> agents s' k = agents s k) \<and>
           ((\<forall>p obs. fst (getAction lib p obs) = p) \<longrightarrow>
              (\<forall>k. k \<noteq> ag \<longrightarrow> agents s' k = agents s k))"
proof -
  from assms obtain e' obs s1 ns where
    l: "selector_loop lib ag 500
       (s\<lparr>vec_env := e', trace := trace s @ [EnvReset], state := obs, score := 0,
          buffers := empty_rollout\<rparr>) = Inr s1"
    and s': "s' = s1\<lparr>agents := (agents s1)(ag := (agents s1 ag)
               \<lparr>scores := scores (agents s1 ag) @ [score s1],
                policy := learn lib (policy (agents s1 ag)) (buffers s1) ns,
                steps := butlast (steps (agents s1 ag)) @ [last (steps (agents s1 ag)) + 500]\<rparr>),
             trace := trace s1 @ [Learn ag (buffers s1) ns],
             total_steps := total_steps s1 + 500\<rparr>"
    by (rule train_agent_Inr)
  define s0 where "s0 = s\<lparr>vec_env := e', trace := trace s @ [EnvReset], state := obs, score := 0,
          buffers := empty_rollout\<rparr>"
  from l have l0: "selector_loop lib ag 500 s0 = Inr s1"
    by (simp add: s0_def)
  from selector_loop_effect [OF l0] obtain evs where
    e: "trace s1 = trace s @ EnvReset # evs" "learn_calls evs = []"
      "ag \<notin> skill_agents \<longrightarrow> count_list (getAction_calls evs) ag = 500"
    by (auto simp: s0_def)
  note f = selector_loop_frame [OF l0]
  have b: "length (states (buffers s1)) = 500" "length (actions (buffers s1)) = 500"
    "length (log_probs (buffers s1)) = 500" "length (rewards (buffers s1)) = 500"
    "length (terminations (buffers s1)) = 500" "length (values_list (buffers s1)) = 500"
    "total_steps s1 = total_steps s"
    using f by (simp_all add: s0_def empty_rollout_def)
  have a1: "scores (agents s1 k) = scores (agents s k) \<and> steps (agents s1 k) = steps (agents s k)"
    for k using f by (simp add: s0_def)
  have a2: "agents s1 k = agents s k" if "k \<noteq> ag \<and> k \<notin> skill_agents" for k
    using f that by (simp add: s0_def)
  have a3: "agents s1 = agents s" if "\<forall>p obs. fst (getAction lib p obs) = p"
    using f that by (simp add: s0_def)
  from e b a1 a2 a3 show ?thesis
    by (intro exI [of _ evs] exI [of _ "buffers s1"] exI [of _ ns]) (simp add: s')
qed

text \<open>Running without an exception.\<close>

lemma skill_iteration_total:
  assumes "obs_ok lib" and "8 \<le> length (state s)"
  shows "\<exists>s' brk. skill_iteration lib ag s = Inr (s', brk) \<and> 8 \<le> length (state s')"
proof -
  have ok: "8 \<le> length ns" if "env_step lib e a = (e', ns, r, te, tr)" for e a e' ns r te tr
  proof -
    from assms(1) have "8 \<le> length (fst (snd (env_step lib e a)))"
      by (simp add: obs_ok_def)
    with that show ?thesis by simp
  qed
  show ?thesis
  proof (cases "state s ! 6 \<noteq> 0 \<or> state s ! 7 \<noteq> 0")
    case True
    with landed_total [OF assms(2)] have l: "landed (state s) = Inr True"
      by simp
    obtain e' ns r te tr where st: "env_step lib (vec_env s) 0 = (e', ns, r, te, tr)"
      by (cases "env_step lib (vec_env s) 0") auto
    from skill_iteration_landed [OF l st, of ag] ok [OF st] assms(2) show ?thesis
      by auto
  next
    case False
    with landed_total [OF assms(2)] have l: "landed (state s) = Inr False"
      by simp
    obtain p' a lp v where g: "getAction lib (policy (agents s ag)) (state s) = (p', a, lp, v)"
      by (cases "getAction lib (policy (agents s ag)) (state s)") auto
    obtain e' ns r te tr where st: "env_step lib (vec_env s) a = (e', ns, r, te, tr)"
      by (cases "env_step lib (vec_env s) a") auto
    from skill_iteration_flying [OF l g st] ok [OF st] assms(2) show ?thesis
      by auto
  qed
qed

lemma skill_loop_total:
  assumes "obs_ok lib"
  shows "8 \<le> length (state s) \<Longrightarrow>
           \<exists>s'. skill_loop lib ag n s = Inr s' \<and> 8 \<le> length (state s')"
proof (induction n arbitrary: s)
  case 0
  then show ?case by simp
next
  case (Suc n)
  from skill_iteration_total [OF assms Suc.prems, of ag] obtain s1 brk where
    it: "skill_iteration lib ag s = Inr (s1, brk)" and len: "8 \<le> length (state s1)"
    by blast
  show ?case
  proof (cases brk)
    case True
    with it len show ?thesis by simp
  next
    case False
    from Suc.IH [OF len] obtain s' where "skill_loop lib ag n s1 = Inr s'" "8 \<le> length (state s')"
      by blast
    with it False show ?thesis by simp
  qed
qed

lemma selector_step_total:
  assumes "obs_ok lib" and "policy_ok lib P" and "ag \<notin> skill_agents"
    and "8 \<le> length (state s)" and "P (policy (agents s ag))"
  shows "\<exists>s'. selector_step lib ag s = Inr s' \<and> 8 \<le> length (state s') \<and>
           P (policy (agents s' ag))"
proof -
  obtain p' act lp v where g: "getAction lib (policy (agents s ag)) (state s) = (p', act, lp, v)"
    by (cases "getAction lib (policy (agents s ag)) (state s)") auto
  from assms(2,5) have "P (fst (getAction lib (policy (agents s ag)) (state s)))"
    "fst (snd (getAction lib (policy (agents s ag)) (state s))) \<in> {0, 1, 2}"
    by (simp_all add: policy_ok_def)
  with g have p': "P p'" and act: "act \<in> {0, 1, 2}"
    by simp_all
  from act obtain entry where e: "trained_skills act = Some entry"
    by (auto simp: trained_skills_def)
  note d = trained_skills_Some [OF e]
  define s1 where "s1 = s\<lparr>agents := (agents s)(ag := (agents s ag)\<lparr>policy := p'\<rparr>),
          trace := trace s @ [GetAction ag], reward := 0\<rparr>"
  from assms(4) have "8 \<le> length (state s1)"
    by (simp add: s1_def)
  from skill_loop_total [OF assms(1) this] obtain s2 where
    l: "skill_loop lib (agent entry) (skill_duration entry) s1 = Inr s2"
    and len: "8 \<le> length (state s2)"
    by blast
  from skill_loop_frame [OF l] d(1) obtain t where t: "termination_v s2 = Some t"
    by auto
  from d(2) assms(3) have "ag \<noteq> agent entry"
    by (auto simp: skill_agents_def)
  with skill_loop_frame [OF l] have "agents s2 ag = agents s1 ag"
    by simp
  then have pol: "policy (agents s2 ag) = p'"
    by (simp add: s1_def)
  from g e l t have "selector_step lib ag s =
      Inr (s2\<lparr>score := score s2 + reward s2,
             buffers :=
               \<lparr>states = states (buffers s2) @ [state s2],
                actions = actions (buffers s2) @ [act],
                log_probs = log_probs (buffers s2) @ [lp],
                rewards = rewards (buffers s2) @ [reward s2],
                terminations = terminations (buffers s2) @ [t],
                values_list = values_list (buffers s2) @ [v]\<rparr>\<rparr>)"
    by (simp add: selector_step_def getAction_call_def lookup_def read_var_def s1_def Let_def)
  with len pol p' show ?thesis
    by simp
qed

lemma selector_loop_total:
  assumes "obs_ok lib" and "policy_ok lib P" and "ag \<notin> skill_agents"
  shows "8 \<le> length (state s) \<Longrightarrow> P (policy (agents s ag)) \<Longrightarrow>
           \<exists>s'. selector_loop lib ag n s = Inr s' \<and> P (policy (agents s' ag))"
proof (induction n arbitrary: s)
  case 0
  then show ?case by simp
next
  case (Suc n)
  from selector_step_total [OF assms Suc.prems] obtain s1 where
    st: "selector_step lib ag s = Inr s1" and i: "8 \<le> length (state s1)" "P (policy (agents s1 ag))"
    by blast
  from Suc.IH [OF i] obtain s' where "selector_loop lib ag n s1 = Inr s'" "P (policy (agents s' ag))"
    by blast
  with st show ?case by simp
qed

lemma train_agent_total:
  assumes "obs_ok lib" and "policy_ok lib P" and "ag \<notin> skill_agents"
    and "P (policy (agents s ag))" and "steps (agents s ag) \<noteq> []"
  shows "\<exists>s'. train_agent lib ag s = Inr s' \<and> P (policy (agents s' ag)) \<and>
           steps (agents s' ag) \<noteq> []"
proof -
  obtain e' obs where r: "env_reset lib (vec_env s) = (e', obs)"
    by (cases "env_reset lib (vec_env s)") auto
  from assms(1) have "8 \<le> length (snd (env_reset lib (vec_env s)))"
    by (simp add: obs_ok_def)
  with r have len: "8 \<le> length obs"
    by simp
  define s0 where "s0 = s\<lparr>vec_env := e', trace := trace s @ [EnvReset], state := obs, score := 0,
          buffers := empty_rollout\<rparr>"
  from len assms(4) have i: "8 \<le> length (state s0)" "P (policy (agents s0 ag))"
    by (simp_all add: s0_def)
  from selector_loop_total [OF assms(1-3) i] obtain s1 where
    l: "selector_loop lib ag 500 s0 = Inr s1" and p: "P (policy (agents s1 ag))"
    by blast
  note f = selector_loop_frame [OF l]
  from f obtain ns where ns: "next_state s1 = Some ns"
    by auto
  from f assms(5) have st: "steps (agents s1 ag) \<noteq> []"
    by (simp add: s0_def)
  from assms(2) p have pl: "P (learn lib (policy (agents s1 ag)) (buffers s1) ns)"
    by (simp add: policy_ok_def)
  from r l ns st have "train_agent lib ag s =
      Inr (s1\<lparr>agents := (agents s1)(ag := (agents s1 ag)
               \<lparr>scores := scores (agents s1 ag) @ [score s1],
                policy := learn lib (policy (agents s1 ag)) (buffers s1) ns,
                steps := butlast (steps (agents s1 ag)) @ [last (steps (agents s1 ag)) + 500]\<rparr>),
             trace := trace s1 @ [Learn ag (buffers s1) ns],
             total_steps := total_steps s1 + 500\<rparr>)"
    by (simp add: train_agent_def learn_call_def read_var_def add_to_last_def s0_def Let_def)
  with pl show ?thesis
    by simp
qed

lemma example_lib_ok: "obs_ok (example_lib k)" "policy_ok (example_lib k) (\<lambda>p. True)"
proof -
  show "obs_ok (example_lib k)"
    by (simp add: obs_ok_def example_lib_def)
  have "int (p mod 3) \<in> {0, 1, 2}" for p :: nat
  proof -
    have "p mod 3 < 3" by simp
    then have "p mod 3 = 0 \<or> p mod 3 = 1 \<or> p mod 3 = 2" by arith
    then show ?thesis by auto
  qed
  then show "policy_ok (example_lib k) (\<lambda>p. True)"
    by (simp add: policy_ok_def example_lib_def)
qed

text \<open>
  Claim C10. An episode of one selector agent that runs to its end makes exactly 500
  selector steps, whatever the environment reports: the trace of the episode holds 500
  \<^verbatim>\<open>getAction\<close> calls on the selector and one \<^verbatim>\<open>learn\<close> call on it, and each of the
  six lists passed to \<^verbatim>\<open>learn\<close> has 500 entries. The episode does run to its end (no
  exception) when the observations have eight components, the selector's actions are
  keys of \<^verbatim>\<open>trained_skills\<close> and the selector's \<^verbatim>\<open>steps\<close> list is not empty.
\<close>

theorem episode_has_500_selector_steps:
  "(train_agent lib (Selector i) s = Inr s' \<longrightarrow>
      count_list (getAction_calls (new_events s s')) (Selector i) = 500 \<and>
      (\<exists>ro ns. learn_calls (new_events s s') = [(Selector i, ro, ns)] \<and>
         ro = buffers s' \<and>
         length (states ro) = 500 \<and> length (actions ro) = 500 \<and>
         length (log_probs ro) = 500 \<and> length (rewards ro) = 500 \<and>
         length (terminations ro) = 500 \<and> length (values_list ro) = 500)) \<and>
   (obs_ok lib \<and> policy_ok lib P \<and> P (policy (agents s (Selector i))) \<and>
    steps (agents s (Selector i)) \<noteq> [] \<longrightarrow>
      (\<exists>s''. train_agent lib (Selector i) s = Inr s''))"
proof (rule conjI; rule impI)
  assume t: "obs_ok lib \<and> policy_ok lib P \<and> P (policy (agents s (Selector i))) \<and>
    steps (agents s (Selector i)) \<noteq> []"
  have "Selector i \<notin> skill_agents"
    by (simp add: skill_agents_def)
  with t train_agent_total [of lib P "Selector i" s]
  show "\<exists>s''. train_agent lib (Selector i) s = Inr s''"
    by blast
next
  assume assms: "train_agent lib (Selector i) s = Inr s'"
  show "count_list (getAction_calls (new_events s s')) (Selector i) = 500 \<and>
      (\<exists>ro ns. learn_calls (new_events s s') = [(Selector i, ro, ns)] \<and>
         ro = buffers s' \<and>
         length (states ro) = 500 \<and> length (actions ro) = 500 \<and>
         length (log_probs ro) = 500 \<and> length (rewards ro) = 500 \<and>
         length (terminations ro) = 500 \<and> length (values_list ro) = 500)"
  proof -
  from train_agent_effect [OF assms] obtain evs ro ns where
    e: "trace s' = trace s @ EnvReset # evs @ [Learn (Selector i) ro ns]"
      "learn_calls evs = []"
      "Selector i \<notin> skill_agents \<longrightarrow> count_list (getAction_calls evs) (Selector i) = 500"
      "length (states ro) = 500" "length (actions ro) = 500" "length (log_probs ro) = 500"
      "length (rewards ro) = 500" "length (terminations ro) = 500"
      "length (values_list ro) = 500"
    by blast
  have n: "new_events s s' = EnvReset # evs @ [Learn (Selector i) ro ns]"
    using e(1) by (simp add: new_events_def)
  have "Selector i \<notin> skill_agents"
    by (simp add: skill_agents_def)
  with e(3) have c: "count_list (getAction_calls (new_events s s')) (Selector i) = 500"
    by (simp add: n getAction_calls_append count_list_append')
  have lc: "learn_calls (new_events s s') = [(Selector i, ro, ns)]"
    using e(2) by (simp add: n learn_calls_append)
  from assms obtain s1 ns' where "s' = s1\<lparr>agents := (agents s1)(Selector i := (agents s1 (Selector i))
               \<lparr>scores := scores (agents s1 (Selector i)) @ [score s1],
                policy := learn lib (policy (agents s1 (Selector i))) (buffers s1) ns',
                steps := butlast (steps (agents s1 (Selector i))) @ [last (steps (agents s1 (Selector i))) + 500]\<rparr>),
             trace := trace s1 @ [Learn (Selector i) (buffers s1) ns'],
             total_steps := total_steps s1 + 500\<rparr>"
    by (rule train_agent_Inr)
  then have "trace s' = trace s1 @ [Learn (Selector i) (buffers s')  ns']"
    by simp
  with e(1) have "ro = buffers s'"
    by simp
  with c lc e show ?thesis
    by simp
qed
qed

theorem episode_has_500_selector_steps_witness:
  "\<exists>s'. train_agent (example_lib 3) (Selector 0) example_state = Inr s' \<and>
     count_list (getAction_calls (new_events example_state s')) (Selector 0) = 500 \<and>
     length (states (buffers s')) = 500 \<and> length (actions (buffers s')) = 500 \<and>
     length (log_probs (buffers s')) = 500 \<and> length (rewards (buffers s')) = 500 \<and>
     length (terminations (buffers s')) = 500 \<and> length (values_list (buffers s')) = 500"
proof -
  have "steps (agents example_state (Selector 0)) \<noteq> []"
    by (simp add: example_state_def)
  with example_lib_ok [of 3]
    episode_has_500_selector_steps
      [where lib = "example_lib 3" and P = "\<lambda>p. True" and i = 0 and s = example_state]
  obtain s' where h: "train_agent (example_lib 3) (Selector 0) example_state = Inr s'"
    by blast
  from h episode_has_500_selector_steps
      [where lib = "example_lib 3" and P = "\<lambda>p. True" and i = 0 and s = example_state
         and s' = s']
  show ?thesis
    by (intro exI [of _ s']) auto
qed

text \<open>The two outer loops.\<close>

lemma population_loop_effect:
  "population_loop lib pop s = Inr s' \<Longrightarrow> set pop \<inter> skill_agents = {} \<Longrightarrow>
     \<exists>evs. trace s' = trace s @ evs \<and> map fst (learn_calls evs) = pop \<and>
       (\<forall>k \<in> skill_agents. scores (agents s' k) = scores (agents s k) \<and>
                             steps (agents s' k) = steps (agents s k)) \<and>
       ((\<forall>p obs. fst (getAction lib p obs) = p) \<longrightarrow>
          (\<forall>k \<in> skill_agents. agents s' k = agents s k))"
proof (induction pop arbitrary: s)
  case Nil
  then show ?case by simp
next
  case (Cons ag pop)
  from Cons.prems(1) obtain s1 where t: "train_agent lib ag s = Inr s1"
    and l: "population_loop lib pop s1 = Inr s'"
    by (auto simp: ebind_Inr_iff)
  from Cons.prems(2) have ag: "ag \<notin> skill_agents" and pop: "set pop \<inter> skill_agents = {}"
    by auto
  from train_agent_effect [OF t] obtain evs1 ro ns where
    e1: "trace s1 = trace s @ EnvReset # evs1 @ [Learn ag ro ns]" "learn_calls evs1 = []"
      "\<forall>k. k \<noteq> ag \<longrightarrow> scores (agents s1 k) = scores (agents s k) \<and>
                            steps (agents s1 k) = steps (agents s k)"
      "(\<forall>p obs. fst (getAction lib p obs) = p) \<longrightarrow> (\<forall>k. k \<noteq> ag \<longrightarrow> agents s1 k = agents s k)"
    by blast
  from Cons.IH [OF l pop] obtain evs2 where
    e2: "trace s' = trace s1 @ evs2" "map fst (learn_calls evs2) = pop"
      "\<forall>k \<in> skill_agents. scores (agents s' k) = scores (agents s1 k) \<and>
                             steps (agents s' k) = steps (agents s1 k)"
      "(\<forall>p obs. fst (getAction lib p obs) = p) \<longrightarrow>
          (\<forall>k \<in> skill_agents. agents s' k = agents s1 k)"
    by blast
  have a: "trace s' = trace s @ (EnvReset # evs1 @ [Learn ag ro ns]) @ evs2"
    using e1(1) e2(1) by simp
  have b: "map fst (learn_calls ((EnvReset # evs1 @ [Learn ag ro ns]) @ evs2)) = ag # pop"
    using e1(2) e2(2) by (simp add: learn_calls_append)
  have c: "\<forall>k \<in> skill_agents. scores (agents s' k) = scores (agents s k) \<and>
                             steps (agents s' k) = steps (agents s k)"
    using e1(3) e2(3) ag by auto
  have d: "(\<forall>p obs. fst (getAction lib p obs) = p) \<longrightarrow>
          (\<forall>k \<in> skill_agents. agents s' k = agents s k)"
    using e1(4) e2(4) ag by auto
  from a b c d show ?case
    by (intro exI [of _ "(EnvReset # evs1 @ [Learn ag ro ns]) @ evs2"]) simp
qed

lemma episode_loop_effect:
  "episode_loop lib pop n s = Inr s' \<Longrightarrow> set pop \<inter> skill_agents = {} \<Longrightarrow>
     \<exists>evs. trace s' = trace s @ evs \<and> map fst (learn_calls evs) = concat (replicate n pop) \<and>
       (\<forall>k \<in> skill_agents. scores (agents s' k) = scores (agents s k) \<and>
                             steps (agents s' k) = steps (agents s k)) \<and>
       ((\<forall>p obs. fst (getAction lib p obs) = p) \<longrightarrow>
          (\<forall>k \<in> skill_agents. agents s' k = agents s k))"
proof (induction n arbitrary: s)
  case 0
  then show ?case by simp
next
  case (Suc n)
  from Suc.prems(1) obtain s1 where t: "population_loop lib pop s = Inr s1"
    and l: "episode_loop lib pop n s1 = Inr s'"
    by (auto simp: ebind_Inr_iff)
  from population_loop_effect [OF t Suc.prems(2)] obtain evs1 where
    e1: "trace s1 = trace s @ evs1" "map fst (learn_calls evs1) = pop"
      "\<forall>k \<in> skill_agents. scores (agents s1 k) = scores (agents s k) \<and>
                             steps (agents s1 k) = steps (agents s k)"
      "(\<forall>p obs. fst (getAction lib p obs) = p) \<longrightarrow>
          (\<forall>k \<in> skill_agents. agents s1 k = agents s k)"
    by blast
  from Suc.IH [OF l Suc.prems(2)] obtain evs2 where
    e2: "trace s' = trace s1 @ evs2" "map fst (learn_calls evs2) = concat (replicate n pop)"
      "\<forall>k \<in> skill_agents. scores (agents s' k) = scores (agents s1 k) \<and>
                             steps (agents s' k) = steps (agents s1 k)"
      "(\<forall>p obs. fst (getAction lib p obs) = p) \<longrightarrow>
          (\<forall>k \<in> skill_agents. agents s' k = agents s1 k)"
    by blast
  have a: "trace s' = trace s @ evs1 @ evs2"
    using e1(1) e2(1) by simp
  have b: "map fst (learn_calls (evs1 @ evs2)) = concat (replicate (Suc n) pop)"
    using e1(2) e2(2) by (simp add: learn_calls_append)
  have c: "\<forall>k \<in> skill_agents. scores (agents s' k) = scores (agents s k) \<and>
                             steps (agents s' k) = steps (agents s k)"
    using e1(3) e2(3) by auto
  have d: "(\<forall>p obs. fst (getAction lib p obs) = p) \<longrightarrow>
          (\<forall>k \<in> skill_agents. agents s' k = agents s k)"
    using e1(4) e2(4) by auto
  from a b c d show ?case
    by (intro exI [of _ "evs1 @ evs2"]) simp
qed

lemma population_loop_total:
  assumes "obs_ok lib" and "policy_ok lib P" and "A \<inter> skill_agents = {}"
  shows "set pop \<subseteq> A \<Longrightarrow>
         \<forall>a \<in> A. P (policy (agents s a)) \<and> steps (agents s a) \<noteq> [] \<Longrightarrow>
           \<exists>s'. population_loop lib pop s = Inr s' \<and>
             (\<forall>a \<in> A. P (policy (agents s' a)) \<and> steps (agents s' a) \<noteq> [])"
proof (induction pop arbitrary: s)
  case Nil
  then show ?case by simp
next
  case (Cons ag pop)
  from Cons.prems(1) have agA: "ag \<in> A" and popA: "set pop \<subseteq> A"
    by simp_all
  from agA assms(3) have ag: "ag \<notin> skill_agents"
    by auto
  from agA Cons.prems(2) have i: "P (policy (agents s ag))" "steps (agents s ag) \<noteq> []"
    by simp_all
  from train_agent_total [OF assms(1,2) ag i] obtain s1 where
    t: "train_agent lib ag s = Inr s1" and j: "P (policy (agents s1 ag))" "steps (agents s1 ag) \<noteq> []"
    by blast
  from train_agent_effect [OF t] have
    fr: "\<forall>k. k \<noteq> ag \<and> k \<notin> skill_agents \<longrightarrow> agents s1 k = agents s k"
    by blast
  have inv: "\<forall>a \<in> A. P (policy (agents s1 a)) \<and> steps (agents s1 a) \<noteq> []"
  proof
    fix a assume a: "a \<in> A"
    show "P (policy (agents s1 a)) \<and> steps (agents s1 a) \<noteq> []"
    proof (cases "a = ag")
      case True
      with j show ?thesis by simp
    next
      case False
      from a assms(3) have "a \<notin> skill_agents" by auto
      with False fr have "agents s1 a = agents s a" by simp
      with a Cons.prems(2) show ?thesis by simp
    qed
  qed
  from Cons.IH [OF popA inv] t show ?case
    by simp
qed

lemma episode_loop_total:
  assumes "obs_ok lib" and "policy_ok lib P" and "set pop \<inter> skill_agents = {}"
  shows "\<forall>a \<in> set pop. P (policy (agents s a)) \<and> steps (agents s a) \<noteq> [] \<Longrightarrow>
           \<exists>s'. episode_loop lib pop n s = Inr s'"
proof (induction n arbitrary: s)
  case 0
  then show ?case by simp
next
  case (Suc n)
  from population_loop_total [OF assms subset_refl Suc.prems] obtain s1 where
    t: "population_loop lib pop s = Inr s1"
    and inv: "\<forall>a \<in> set pop. P (policy (agents s1 a)) \<and> steps (agents s1 a) \<noteq> []"
    by blast
  from Suc.IH [OF inv] t show ?case
    by simp
qed

lemma selectors_are_not_skill_agents: "set (map Selector xs) \<inter> skill_agents = {}"
  by (auto simp: skill_agents_def)

text \<open>
  Claim C3. During selector training the three loaded skill agents are frozen: the
  \<^verbatim>\<open>learn\<close> calls of the whole training loop are, episode after episode, the calls on
  the selector agents of \<^verbatim>\<open>pop\<close>, so none of them is on a skill agent, whose only
  method called is \<^verbatim>\<open>getAction\<close>; the script leaves the \<^verbatim>\<open>scores\<close> and \<^verbatim>\<open>steps\<close> of
  the skill agents as they were, and when \<^verbatim>\<open>getAction\<close> does not change the agent it is
  called on, the skill agents after the training are the skill agents before it.
\<close>

theorem skill_agents_are_frozen:
  assumes "selector_training lib s = Inr s'"
  shows
    "map fst (learn_calls (new_events s s')) =
       concat (replicate EPISODES (map Selector [0..<POPULATION_SIZE])) \<and>
     (\<forall>k \<in> {stabilize_agent, center_agent, landing_agent}.
        k \<notin> fst ` set (learn_calls (new_events s s')) \<and>
        scores (agents s' k) = scores (agents s k) \<and>
        steps (agents s' k) = steps (agents s k)) \<and>
     ((\<forall>p obs. fst (getAction lib p obs) = p) \<longrightarrow>
        (\<forall>k \<in> {stabilize_agent, center_agent, landing_agent}. agents s' k = agents s k))"
proof -
  from assms have l: "episode_loop lib (map Selector [0..<POPULATION_SIZE]) EPISODES s = Inr s'"
    by (simp add: selector_training_def)
  from episode_loop_effect [OF l selectors_are_not_skill_agents] obtain evs where
    e: "trace s' = trace s @ evs"
      "map fst (learn_calls evs) = concat (replicate EPISODES (map Selector [0..<POPULATION_SIZE]))"
      "\<forall>k \<in> skill_agents. scores (agents s' k) = scores (agents s k) \<and>
                             steps (agents s' k) = steps (agents s k)"
      "(\<forall>p obs. fst (getAction lib p obs) = p) \<longrightarrow>
          (\<forall>k \<in> skill_agents. agents s' k = agents s k)"
    by blast
  from e(1) have n: "new_events s s' = evs"
    by (simp add: new_events_def)
  have "fst ` set (learn_calls evs) = set (map fst (learn_calls evs))"
    by simp
  also have "\<dots> \<subseteq> Selector ` {0..<POPULATION_SIZE}"
    by (auto simp: e(2))
  finally have "k \<notin> fst ` set (learn_calls evs)" if "k \<in> skill_agents" for k
    using that by (auto simp: skill_agents_def)
  with e show ?thesis
    by (simp add: n skill_agents_def)
qed

theorem skill_agents_are_frozen_witness:
  "\<exists>s'. selector_training (example_lib 3) example_state = Inr s' \<and>
     map fst (learn_calls (new_events example_state s')) = replicate 1000 (Selector 0) \<and>
     scores (agents s' stabilize_agent) = [] \<and> steps (agents s' stabilize_agent) = [0] \<and>
     scores (agents s' center_agent) = [] \<and> steps (agents s' center_agent) = [0] \<and>
     scores (agents s' landing_agent) = [] \<and> steps (agents s' landing_agent) = [0]"
proof -
  have "\<forall>a \<in> set (map Selector [0..<POPULATION_SIZE]).
      True \<and> steps (agents example_state a) \<noteq> []"
    by (simp add: example_state_def)
  from episode_loop_total [OF example_lib_ok selectors_are_not_skill_agents this, of 3 EPISODES]
  obtain s' where h: "selector_training (example_lib 3) example_state = Inr s'"
    by (auto simp: selector_training_def)
  have c: "concat (replicate EPISODES (map Selector [0..<POPULATION_SIZE])) =
      replicate 1000 (Selector 0)"
    by (simp add: EPISODES_def POPULATION_SIZE_def concat_replicate_trivial
        flip: replicate_append_same)
  from skill_agents_are_frozen [OF h] c h show ?thesis
    by (intro exI [of _ s']) (simp add: example_state_def)
qed

end
